theory Spec2Isabelle
  imports Complex_Main
begin

section \<open>JSON values and Python errors\<close>

text \<open>
  The client receives JSON documents from the server and stores what it finds in them in
  its entities without checking types, so the model keeps JSON values as they are.
  \<open>JNull\<close> is Python's \<open>None\<close>. A JSON object is an association list; a key is looked
  up with \<open>map_of\<close>, so the first binding of a key is the one that counts, and the
  keys of the dictionary are \<open>dict_keys\<close>, in the order of their first occurrence.
\<close>

datatype json =
    JNull
  | JBool bool
  | JInt int
  | JStr string
  | JArr "json list"
  | JObj "(string \<times> json) list"

text \<open>
  The exceptions the modelled functions can raise. \<open>KeyError\<close> carries the missing key,
  the two \<open>NotFound\<close> classes and \<open>Ambiguous\<close> carry the URL of their message,
  \<open>HTTPError\<close> the status code and \<open>Timeout\<close> the configured \<open>timeout_seconds\<close>.
  \<open>TransportError\<close> stands for an exception raised inside the session while sending a
  request, \<open>JSONDecodeError\<close> for a response body that is not JSON, \<open>ValueError\<close> for
  \<open>time.sleep\<close> called with a negative length.
\<close>

datatype error =
    KeyError string
  | TypeError
  | IndexError
  | ValueError
  | JSONDecodeError
  | TransportError
  | HTTPError int
  | OperationNotFound string
  | DatasetNotFound string
  | Ambiguous string
  | Timeout "int option"

definition dict_keys :: "(string \<times> json) list \<Rightarrow> string list" where
  "dict_keys kvs = rev (remdups (rev (map fst kvs)))"

text \<open>Python's subscript \<open>v[k]\<close> with a string key and \<open>v.get(k)\<close> on a dictionary.\<close>

fun getitem :: "json \<Rightarrow> string \<Rightarrow> error + json" where
  "getitem (JObj kvs) k = (case map_of kvs k of None \<Rightarrow> Inl (KeyError k) | Some v \<Rightarrow> Inr v)"
| "getitem _ k = Inl TypeError"

definition dict_get :: "(string \<times> json) list \<Rightarrow> string \<Rightarrow> json" where
  "dict_get kvs k = (case map_of kvs k of None \<Rightarrow> JNull | Some v \<Rightarrow> v)"

text \<open>
  Python's \<open>tuple(v)\<close>: the elements of a list, the keys of a dictionary, the characters
  of a string; any other JSON value is not iterable.
\<close>

fun py_tuple :: "json \<Rightarrow> error + json list" where
  "py_tuple (JArr xs) = Inr xs"
| "py_tuple (JObj kvs) = Inr (map JStr (dict_keys kvs))"
| "py_tuple (JStr s) = Inr (map (\<lambda>c. JStr [c]) s)"
| "py_tuple _ = Inl TypeError"

text \<open>
  Python's \<open>len(v)\<close> and \<open>v[0]\<close>. A dictionary decoded from JSON has string keys only,
  so subscripting it with \<open>0\<close> is a \<open>KeyError\<close>.
\<close>

fun py_len :: "json \<Rightarrow> error + nat" where
  "py_len (JArr xs) = Inr (length xs)"
| "py_len (JObj kvs) = Inr (length (dict_keys kvs))"
| "py_len (JStr s) = Inr (length s)"
| "py_len _ = Inl TypeError"

fun py_first :: "json \<Rightarrow> error + json" where
  "py_first (JArr []) = Inl IndexError"
| "py_first (JArr (x # xs)) = Inr x"
| "py_first (JObj kvs) = Inl (KeyError ''0'')"
| "py_first (JStr []) = Inl IndexError"
| "py_first (JStr (c # s)) = Inr (JStr [c])"
| "py_first _ = Inl TypeError"

text \<open>
  Formatting a value inside an f-string. A string is inserted as it is; for every other
  value Python inserts \<open>str(v)\<close>, which the parameter \<open>repr\<close> stands for.
\<close>

definition format :: "(json \<Rightarrow> string) \<Rightarrow> json \<Rightarrow> string" where
  "format repr v = (case v of JStr s \<Rightarrow> s | _ \<Rightarrow> repr v)"

section \<open>Instance and URL\<close>

record Instance =
  protocol :: string
  host :: string
  port :: "int option"

fun dec :: "nat \<Rightarrow> string" where
  "dec n = (if n < 10 then [''0123456789'' ! n] else dec (n div 10) @ [''0123456789'' ! (n mod 10)])"

definition str_int :: "int \<Rightarrow> string" where
  "str_int i = (if i < 0 then ''-'' @ dec (nat (- i)) else dec (nat i))"

text \<open>\<open>origin\<close> of instance.py.\<close>

definition origin :: "Instance \<Rightarrow> string" where
  "origin inst =
     (case port inst of
        None \<Rightarrow> protocol inst @ ''://'' @ host inst
      | Some p \<Rightarrow> protocol inst @ ''://'' @ host inst @ '':'' @ str_int p)"

text \<open>
  Modelled from the spec: the \<open>URL\<close> dataclass and its string form are declared in
  tamr_client/_types.py, which is not among the sources. A URL is an instance (the field
  \<open>url_instance\<close>) and a path, and it serializes to the origin, the fixed API
  prefix and the path. The dataclass
  does not check its fields, and \<open>by_name\<close> stores the \<open>relativeId\<close> of the server's
  answer in \<open>path\<close> as it is, so \<open>path\<close> is a JSON value (a \<open>JStr\<close> in every URL the
  client builds itself).
\<close>

record URL =
  url_instance :: Instance
  path :: json

definition url_str :: "(json \<Rightarrow> string) \<Rightarrow> URL \<Rightarrow> string" where
  "url_str repr u = origin (url_instance u) @ ''/api/versioned/v1/'' @ format repr (path u)"

section \<open>Entities and their deserialization\<close>

text \<open>
  The frozen dataclasses \<open>Dataset\<close> and \<open>Operation\<close>. Their fields hold whatever the
  JSON document holds under the key; an absent optional field is \<open>None\<close>. The fields
  \<open>url\<close>, \<open>type\<close> and \<open>description\<close> of \<open>Operation\<close> are \<open>op_url\<close>, \<open>op_type\<close> and
  \<open>op_description\<close> here.
\<close>

record Dataset =
  url :: URL
  name :: json
  key_attribute_names :: "json list"
  description :: json

record Operation =
  op_url :: URL
  op_type :: json
  status :: json
  op_description :: json

text \<open>
  \<open>_from_json\<close> of dataset/_dataset.py. The arguments of the constructor are evaluated
  from left to right: \<open>cp["name"]\<close>, \<open>cp.get("description")\<close>, then
  \<open>tuple(cp["keyAttributeNames"])\<close>. The value copied by \<open>deepcopy\<close> equals its
  argument; the store-level model below shows what the copy is for.
\<close>

fun dataset_from_json :: "URL \<Rightarrow> json \<Rightarrow> error + Dataset" where
  "dataset_from_json u (JObj cp) =
     (case getitem (JObj cp) ''name'' of
        Inl e \<Rightarrow> Inl e
      | Inr n \<Rightarrow>
          (case getitem (JObj cp) ''keyAttributeNames'' of
             Inl e \<Rightarrow> Inl e
           | Inr ks \<Rightarrow>
               (case py_tuple ks of
                  Inl e \<Rightarrow> Inl e
                | Inr t \<Rightarrow>
                    Inr \<lparr>url = u, name = n, key_attribute_names = t,
                         description = dict_get cp ''description''\<rparr>)))"
| "dataset_from_json u _ = Inl TypeError"

text \<open>\<open>_from_json\<close> of operation.py.\<close>

fun operation_from_json :: "URL \<Rightarrow> json \<Rightarrow> error + Operation" where
  "operation_from_json u (JObj cp) =
     (case getitem (JObj cp) ''type'' of
        Inl e \<Rightarrow> Inl e
      | Inr t \<Rightarrow>
          Inr \<lparr>op_url = u, op_type = t, status = dict_get cp ''status'',
               op_description = dict_get cp ''description''\<rparr>)"
| "operation_from_json u _ = Inl TypeError"

section \<open>The session, the clock and the operations on them\<close>

text \<open>
  The session is supplied from outside. A response has a status code, a body (\<open>None\<close>
  when the body is not a JSON document) and the URL it came from.
\<close>

record response =
  status_code :: int
  body :: "json option"
  resp_url :: string

datatype request = GET string "(string \<times> string) list"

text \<open>
  The world a call runs in. \<open>server\<close> answers the \<open>n\<close>-th request of the run (\<open>None\<close>:
  the session raises), \<open>clock\<close> is the value of the \<open>n\<close>-th call of \<open>time.time()\<close>,
  as exact reals. Both are fixed by the environment; a call only extends the logs:
  the requests sent, the number of clock readings taken, the lengths slept.
\<close>

record world =
  server :: "nat \<Rightarrow> request \<Rightarrow> response option"
  clock :: "nat \<Rightarrow> real"
  requests :: "request list"
  ticks :: nat
  sleeps :: "int list"

definition session_get :: "string \<Rightarrow> (string \<times> string) list \<Rightarrow> world \<Rightarrow> (error + response) \<times> world" where
  "session_get u params w =
     (case server w (length (requests w)) (GET u params) of
        None \<Rightarrow> (Inl TransportError, w\<lparr>requests := requests w @ [GET u params]\<rparr>)
      | Some r \<Rightarrow> (Inr r, w\<lparr>requests := requests w @ [GET u params]\<rparr>))"

definition now :: "world \<Rightarrow> real \<times> world" where
  "now w = (clock w (ticks w), w\<lparr>ticks := Suc (ticks w)\<rparr>)"

definition sleep :: "int \<Rightarrow> world \<Rightarrow> (error + unit) \<times> world" where
  "sleep secs w =
     (if secs < 0 then (Inl ValueError, w) else (Inr (), w\<lparr>sleeps := sleeps w @ [secs]\<rparr>))"

definition resp_json :: "response \<Rightarrow> error + json" where
  "resp_json r = (case body r of None \<Rightarrow> Inl JSONDecodeError | Some j \<Rightarrow> Inr j)"

text \<open>
  Modelled from the spec: \<open>response.successful\<close> is defined in tamr_client/response.py,
  which is not among the sources. It returns a 2xx response and raises a transport-level
  error for any other.
\<close>

definition successful :: "response \<Rightarrow> error + response" where
  "successful r =
     (if 200 \<le> status_code r \<and> status_code r < 300 then Inr r
      else Inl (HTTPError (status_code r)))"

section \<open>Operations\<close>

text \<open>\<open>_from_url\<close> and \<open>poll\<close> of operation.py.\<close>

definition operation_from_url :: "(json \<Rightarrow> string) \<Rightarrow> URL \<Rightarrow> world \<Rightarrow> (error + Operation) \<times> world" where
  "operation_from_url repr u w =
     (case session_get (url_str repr u) [] w of
        (Inl e, w1) \<Rightarrow> (Inl e, w1)
      | (Inr r, w1) \<Rightarrow>
          if status_code r = 404 then (Inl (OperationNotFound (url_str repr u)), w1)
          else (case successful r of
                  Inl e \<Rightarrow> (Inl e, w1)
                | Inr r' \<Rightarrow>
                    (case resp_json r' of
                       Inl e \<Rightarrow> (Inl e, w1)
                     | Inr data \<Rightarrow> (operation_from_json u data, w1))))"

definition poll :: "(json \<Rightarrow> string) \<Rightarrow> Operation \<Rightarrow> world \<Rightarrow> (error + Operation) \<times> world" where
  "poll repr operation w = operation_from_url repr (op_url operation) w"

text \<open>\<open>succeeded\<close>: the subscript \<open>status["state"]\<close> can raise.\<close>

definition succeeded :: "Operation \<Rightarrow> error + bool" where
  "succeeded operation =
     (if status operation = JNull then Inr False
      else (case getitem (status operation) ''state'' of
              Inl e \<Rightarrow> Inl e
            | Inr s \<Rightarrow> Inr (s = JStr ''SUCCEEDED'')))"

text \<open>The dictionary that \<open>_from_response\<close> builds for a response with status 204.\<close>

definition never :: string where
  "never = ''0000-00-00T00:00:00.000Z''"

definition noop_description :: string where
  "noop_description =
     ''Tamr returned HTTP 204 for this operation, indicating that all'' @ [CHR 0x0A] @
     ''            results that would be produced by the operation are already up-to-date.''"

definition noop_json :: json where
  "noop_json = JObj
     [(''id'', JStr ''-1''),
      (''type'', JStr ''NOOP''),
      (''description'', JStr noop_description),
      (''status'', JObj
         [(''state'', JStr ''SUCCEEDED''),
          (''startTime'', JStr never),
          (''endTime'', JStr never),
          (''message'', JStr [])]),
      (''created'', JObj [(''username'', JStr []), (''time'', JStr never), (''version'', JStr ''-1'')]),
      (''lastModified'', JObj [(''username'', JStr []), (''time'', JStr never), (''version'', JStr ''-1'')]),
      (''relativeId'', JStr ''operations/-1'')]"

text \<open>\<open>_from_response\<close> of operation.py.\<close>

definition operation_from_response :: "(json \<Rightarrow> string) \<Rightarrow> Instance \<Rightarrow> response \<Rightarrow> error + Operation" where
  "operation_from_response repr inst r =
     (case (if status_code r = 204 then Inr noop_json else resp_json r) of
        Inl e \<Rightarrow> Inl e
      | Inr resource_json \<Rightarrow>
          (case getitem resource_json ''id'' of
             Inl e \<Rightarrow> Inl e
           | Inr i \<Rightarrow>
               operation_from_json
                 \<lparr>url_instance = inst, path = JStr (''operations/'' @ format repr i)\<rparr>
                 resource_json))"

subsection \<open>The wait loop\<close>

text \<open>
  The loop condition \<open>timeout_seconds is None or now() - started < timeout_seconds\<close>:
  the clock is read only when a timeout is set.
\<close>

definition deadline_check :: "int option \<Rightarrow> real \<Rightarrow> world \<Rightarrow> bool \<times> world" where
  "deadline_check timeout_seconds started w =
     (case timeout_seconds of
        None \<Rightarrow> (True, w)
      | Some t \<Rightarrow> (case now w of (t1, w1) \<Rightarrow> (t1 - started < real_of_int t, w1)))"

text \<open>
  The \<open>if\<close>/\<open>elif\<close> chain of the loop body. \<open>Some r\<close>: the function is left, by a
  \<open>return\<close> or by an exception; \<open>None\<close>: control reaches the \<open>poll\<close> after the chain.
\<close>

definition wait_branch :: "int \<Rightarrow> Operation \<Rightarrow> world \<Rightarrow> (error + Operation) option \<times> world" where
  "wait_branch poll_interval_seconds operation w =
     (if status operation = JNull then (Some (Inr operation), w)
      else (case getitem (status operation) ''state'' of
              Inl e \<Rightarrow> (Some (Inl e), w)
            | Inr s \<Rightarrow>
                if s \<in> set [JStr ''PENDING'', JStr ''RUNNING''] then
                  (case sleep poll_interval_seconds w of
                     (Inl e, w1) \<Rightarrow> (Some (Inl e), w1)
                   | (Inr _, w1) \<Rightarrow> (None, w1))
                else if s \<in> set [JStr ''CANCELED'', JStr ''SUCCEEDED'', JStr ''FAILED''] then
                  (Some (Inr operation), w)
                else (None, w)))"

text \<open>
  The \<open>while\<close> loop of \<open>wait\<close>. It need not end (an operation that stays \<open>PENDING\<close>,
  no timeout), so it is a partial function: \<open>None\<close> is a run that never returns.
\<close>

partial_function (option) wait_loop ::
  "(json \<Rightarrow> string) \<Rightarrow> int \<Rightarrow> int option \<Rightarrow> real \<Rightarrow> Operation \<Rightarrow> world
     \<Rightarrow> ((error + Operation) \<times> world) option" where
  "wait_loop repr poll_interval_seconds timeout_seconds started operation w =
     (case deadline_check timeout_seconds started w of
        (go, w1) \<Rightarrow>
          if \<not> go then Some (Inl (Timeout timeout_seconds), w1)
          else (case wait_branch poll_interval_seconds operation w1 of
                  (Some r, w2) \<Rightarrow> Some (r, w2)
                | (None, w2) \<Rightarrow>
                    (case poll repr operation w2 of
                       (Inl e, w3) \<Rightarrow> Some (Inl e, w3)
                     | (Inr operation', w3) \<Rightarrow>
                         wait_loop repr poll_interval_seconds timeout_seconds started operation' w3)))"

definition wait ::
  "(json \<Rightarrow> string) \<Rightarrow> Operation \<Rightarrow> int \<Rightarrow> int option \<Rightarrow> world
     \<Rightarrow> ((error + Operation) \<times> world) option" where
  "wait repr operation poll_interval_seconds timeout_seconds w =
     (case now w of
        (started, w0) \<Rightarrow> wait_loop repr poll_interval_seconds timeout_seconds started operation w0)"

text \<open>
  An operation that \<open>wait\<close> returns without polling again: its status is absent, or
  the state in its status is one of the three terminal ones.
\<close>

definition resolved :: "Operation \<Rightarrow> bool" where
  "resolved operation \<longleftrightarrow>
     status operation = JNull
     \<or> (case getitem (status operation) ''state'' of
          Inl e \<Rightarrow> False
        | Inr s \<Rightarrow> s \<in> set [JStr ''CANCELED'', JStr ''SUCCEEDED'', JStr ''FAILED''])"

text \<open>
  The errors that the loop of \<open>wait\<close> raises by itself, not through \<open>poll\<close>: the
  subscript \<open>status["state"]\<close> on a status without that key or on a status that is
  not a dictionary, and \<open>sleep\<close> with a negative interval.
\<close>

definition own_error :: "int \<Rightarrow> error \<Rightarrow> bool" where
  "own_error poll_interval_seconds e \<longleftrightarrow>
     e = KeyError ''state'' \<or> e = TypeError \<or> (e = ValueError \<and> poll_interval_seconds < 0)"

section \<open>Datasets\<close>

text \<open>\<open>_by_url\<close>, \<open>by_resource_id\<close> and \<open>by_name\<close> of dataset/_dataset.py.\<close>

definition by_url :: "(json \<Rightarrow> string) \<Rightarrow> URL \<Rightarrow> world \<Rightarrow> (error + Dataset) \<times> world" where
  "by_url repr u w =
     (case session_get (url_str repr u) [] w of
        (Inl e, w1) \<Rightarrow> (Inl e, w1)
      | (Inr r, w1) \<Rightarrow>
          if status_code r = 404 then (Inl (DatasetNotFound (url_str repr u)), w1)
          else (case successful r of
                  Inl e \<Rightarrow> (Inl e, w1)
                | Inr r' \<Rightarrow>
                    (case resp_json r' of
                       Inl e \<Rightarrow> (Inl e, w1)
                     | Inr data \<Rightarrow> (dataset_from_json u data, w1))))"

definition by_resource_id :: "(json \<Rightarrow> string) \<Rightarrow> Instance \<Rightarrow> string \<Rightarrow> world \<Rightarrow> (error + Dataset) \<times> world" where
  "by_resource_id repr inst i w =
     by_url repr \<lparr>url_instance = inst, path = JStr (''datasets/'' @ i)\<rparr> w"

definition by_name :: "(json \<Rightarrow> string) \<Rightarrow> Instance \<Rightarrow> string \<Rightarrow> world \<Rightarrow> (error + Dataset) \<times> world" where
  "by_name repr inst nm w =
     (case session_get (url_str repr \<lparr>url_instance = inst, path = JStr ''datasets''\<rparr>)
             [(''filter'', ''name=='' @ nm)] w of
        (Inl e, w1) \<Rightarrow> (Inl e, w1)
      | (Inr r, w1) \<Rightarrow>
          (case resp_json r of
             Inl e \<Rightarrow> (Inl e, w1)
           | Inr matches \<Rightarrow>
               (case py_len matches of
                  Inl e \<Rightarrow> (Inl e, w1)
                | Inr n \<Rightarrow>
                    if n = 0 then (Inl (DatasetNotFound (resp_url r)), w1)
                    else if n > 1 then (Inl (Ambiguous (resp_url r)), w1)
                    else (case py_first matches of
                            Inl e \<Rightarrow> (Inl e, w1)
                          | Inr m \<Rightarrow>
                              (case getitem m ''relativeId'' of
                                 Inl e \<Rightarrow> (Inl e, w1)
                               | Inr rid \<Rightarrow>
                                   (dataset_from_json \<lparr>url_instance = inst, path = rid\<rparr> m, w1))))))"

section \<open>Deserialization on a store of mutable objects\<close>

text \<open>
  In Python the argument \<open>data\<close> of \<open>_from_json\<close> is a reference to a dictionary that
  the caller may still hold and change. To say what \<open>deepcopy\<close> is for, the functions
  are modelled once more on an explicit store. An address names a mutable object (a
  dictionary or a list decoded from a response, with everything inside it), and
  \<open>cells\<close> gives its present content; \<open>next_free\<close> is the first address not in use.
\<close>

record store =
  cells :: "nat \<Rightarrow> json"
  next_free :: nat

text \<open>
  What a field of an entity holds: an immutable value (\<open>None\<close>, a boolean, a number, a
  string), or a reference to a dictionary or list, given by the object it is part of
  and the path to it inside that object.
\<close>

datatype step = Key string | Idx nat

datatype pyref = Val json | Ref nat "step list"

fun subtree :: "json \<Rightarrow> step list \<Rightarrow> json option" where
  "subtree j [] = Some j"
| "subtree (JObj kvs) (Key k # p) =
     (case map_of kvs k of None \<Rightarrow> None | Some v \<Rightarrow> subtree v p)"
| "subtree (JArr xs) (Idx i # p) = (if i < length xs then subtree (xs ! i) p else None)"
| "subtree _ _ = None"

fun is_mutable :: "json \<Rightarrow> bool" where
  "is_mutable (JArr xs) = True"
| "is_mutable (JObj kvs) = True"
| "is_mutable _ = False"

definition item_ref :: "nat \<Rightarrow> step list \<Rightarrow> json \<Rightarrow> pyref" where
  "item_ref a p v = (if is_mutable v then Ref a p else Val v)"

text \<open>The value a field has in a given store.\<close>

fun deref :: "store \<Rightarrow> pyref \<Rightarrow> json option" where
  "deref st (Val v) = Some v"
| "deref st (Ref a p) = subtree (cells st a) p"

text \<open>A mutation of the object at an address: its content becomes \<open>j\<close>.\<close>

definition mutate :: "nat \<Rightarrow> json \<Rightarrow> store \<Rightarrow> store" where
  "mutate a j st = st\<lparr>cells := (cells st)(a := j)\<rparr>"

text \<open>Any number of mutations, each of the object at some address.\<close>

definition mutations :: "(nat \<times> json) list \<Rightarrow> store \<Rightarrow> store" where
  "mutations ms st = fold (\<lambda>(a, j). mutate a j) ms st"

text \<open>\<open>deepcopy\<close>: a new object with the content of the old one.\<close>

definition deepcopy :: "nat \<Rightarrow> store \<Rightarrow> nat \<times> store" where
  "deepcopy a st =
     (next_free st, st\<lparr>cells := (cells st)(next_free st := cells st a), next_free := Suc (next_free st)\<rparr>)"

text \<open>\<open>cp[k]\<close>, \<open>cp.get(k)\<close> and \<open>tuple(cp[k])\<close> on the object at an address.\<close>

definition getitem_st :: "store \<Rightarrow> nat \<Rightarrow> string \<Rightarrow> error + pyref" where
  "getitem_st st a k =
     (case getitem (cells st a) k of Inl e \<Rightarrow> Inl e | Inr v \<Rightarrow> Inr (item_ref a [Key k] v))"

definition get_st :: "store \<Rightarrow> nat \<Rightarrow> string \<Rightarrow> pyref" where
  "get_st st a k =
     (case getitem (cells st a) k of Inl e \<Rightarrow> Val JNull | Inr v \<Rightarrow> item_ref a [Key k] v)"

definition tuple_st :: "store \<Rightarrow> nat \<Rightarrow> string \<Rightarrow> error + pyref list" where
  "tuple_st st a k =
     (case getitem (cells st a) k of
        Inl e \<Rightarrow> Inl e
      | Inr (JArr xs) \<Rightarrow> Inr (map (\<lambda>i. item_ref a [Key k, Idx i] (xs ! i)) [0..<length xs])
      | Inr v \<Rightarrow> (case py_tuple v of Inl e \<Rightarrow> Inl e | Inr t \<Rightarrow> Inr (map Val t)))"

record Dataset_st =
  st_url :: URL
  st_name :: pyref
  st_key_attribute_names :: "pyref list"
  st_description :: pyref

record Operation_st =
  st_op_url :: URL
  st_op_type :: pyref
  st_status :: pyref
  st_op_description :: pyref

text \<open>\<open>_from_json\<close> of dataset/_dataset.py and of operation.py, on the store.\<close>

definition dataset_from_json_st :: "URL \<Rightarrow> nat \<Rightarrow> store \<Rightarrow> (error + Dataset_st) \<times> store" where
  "dataset_from_json_st u data st =
     (case deepcopy data st of
        (cp, st1) \<Rightarrow>
          (case getitem_st st1 cp ''name'' of
             Inl e \<Rightarrow> (Inl e, st1)
           | Inr n \<Rightarrow>
               (case tuple_st st1 cp ''keyAttributeNames'' of
                  Inl e \<Rightarrow> (Inl e, st1)
                | Inr t \<Rightarrow>
                    (Inr \<lparr>st_url = u, st_name = n, st_key_attribute_names = t,
                          st_description = get_st st1 cp ''description''\<rparr>, st1))))"

definition operation_from_json_st :: "URL \<Rightarrow> nat \<Rightarrow> store \<Rightarrow> (error + Operation_st) \<times> store" where
  "operation_from_json_st u data st =
     (case deepcopy data st of
        (cp, st1) \<Rightarrow>
          (case getitem_st st1 cp ''type'' of
             Inl e \<Rightarrow> (Inl e, st1)
           | Inr t \<Rightarrow>
               (Inr \<lparr>st_op_url = u, st_op_type = t, st_status = get_st st1 cp ''status'',
                     st_op_description = get_st st1 cp ''description''\<rparr>, st1)))"

text \<open>The entity as a reader sees it in a store: each field dereferenced.\<close>

definition view_dataset :: "store \<Rightarrow> Dataset_st \<Rightarrow> URL \<times> json option \<times> json option list \<times> json option" where
  "view_dataset st d =
     (st_url d, deref st (st_name d), map (deref st) (st_key_attribute_names d),
      deref st (st_description d))"

definition view_operation :: "store \<Rightarrow> Operation_st \<Rightarrow> URL \<times> json option \<times> json option \<times> json option" where
  "view_operation st operation =
     (st_op_url operation, deref st (st_op_type operation), deref st (st_status operation),
      deref st (st_op_description operation))"

definition dataset_fields :: "Dataset \<Rightarrow> URL \<times> json option \<times> json option list \<times> json option" where
  "dataset_fields d = (url d, Some (name d), map Some (key_attribute_names d), Some (description d))"

definition operation_fields :: "Operation \<Rightarrow> URL \<times> json option \<times> json option \<times> json option" where
  "operation_fields operation =
     (op_url operation, Some (op_type operation), Some (status operation),
      Some (op_description operation))"

section \<open>Example inputs\<close>

text \<open>
  A server that answers the requests of a run from a list, a clock that advances by
  \<open>step\<close> seconds from one reading to the next, and operations as the server reports
  them. The instances of the theorems below are stated on these.
\<close>

definition no_repr :: "json \<Rightarrow> string" where
  "no_repr v = []"

definition local_instance :: Instance where
  "local_instance = \<lparr>protocol = ''http'', host = ''localhost'', port = Some 9100\<rparr>"

definition operation_url :: URL where
  "operation_url = \<lparr>url_instance = local_instance, path = JStr ''operations/1''\<rparr>"

definition status_json :: "string \<Rightarrow> json" where
  "status_json s = JObj [(''state'', JStr s)]"

definition operation_json :: "json \<Rightarrow> json" where
  "operation_json st = JObj [(''id'', JStr ''1''), (''type'', JStr ''SPARK''), (''status'', st)]"

definition operation_with :: "json \<Rightarrow> Operation" where
  "operation_with st =
     \<lparr>op_url = operation_url, op_type = JStr ''SPARK'', status = st, op_description = JNull\<rparr>"

definition ok :: "json \<Rightarrow> response" where
  "ok j = \<lparr>status_code = 200, body = Some j, resp_url = ''http://localhost:9100/api''\<rparr>"

definition scripted :: "response list \<Rightarrow> nat \<Rightarrow> request \<Rightarrow> response option" where
  "scripted rs n req = (if n < length rs then Some (rs ! n) else None)"

definition world_of :: "response list \<Rightarrow> real \<Rightarrow> world" where
  "world_of rs step =
     \<lparr>server = scripted rs, clock = (\<lambda>n. real n * step), requests = [], ticks = 0, sleeps = []\<rparr>"

definition dataset_json :: json where
  "dataset_json = JObj
     [(''name'', JStr ''people''),
      (''keyAttributeNames'', JArr [JStr ''id'', JStr ''source'']),
      (''relativeId'', JStr ''datasets/7'')]"

definition store_of :: "json \<Rightarrow> store" where
  "store_of j = \<lparr>cells = (\<lambda>a. if a = 0 then j else JNull), next_free = 1\<rparr>"

section \<open>Deserialization: required and optional fields\<close>

lemma dataset_from_json_KeyError:
  "(\<exists>k. dataset_from_json u (JObj cp) = Inl (KeyError k))
     \<longleftrightarrow> (map_of cp ''name'' = None \<or> map_of cp ''keyAttributeNames'' = None)"
proof (cases "map_of cp ''name''")
  case None
  then show ?thesis by simp
next
  case (Some n)
  show ?thesis
  proof (cases "map_of cp ''keyAttributeNames''")
    case None
    with Some show ?thesis by simp
  next
    case (Some ks)
    with \<open>map_of cp ''name'' = Some n\<close> show ?thesis
      by (cases ks) simp_all
  qed
qed

lemma dataset_from_json_fields:
  "dataset_from_json u j = Inr d \<Longrightarrow>
     \<exists>cp. j = JObj cp \<and> url d = u \<and> map_of cp ''name'' = Some (name d)
       \<and> description d = dict_get cp ''description''"
  by (cases j) (auto split: option.splits sum.splits)

lemma operation_from_json_obj:
  "operation_from_json u (JObj cp) =
     (case map_of cp ''type'' of
        None \<Rightarrow> Inl (KeyError ''type'')
      | Some t \<Rightarrow> Inr \<lparr>op_url = u, op_type = t, status = dict_get cp ''status'',
                       op_description = dict_get cp ''description''\<rparr>)"
  by (simp split: option.splits)

lemma operation_from_json_url:
  "operation_from_json u j = Inr operation \<Longrightarrow> op_url operation = u"
  by (cases j) (auto split: option.splits)

section \<open>The placeholder operation of a 204 response\<close>

text \<open>
  C3. For every response with status code 204, \<open>_from_response\<close> returns an operation
  whose type is \<open>"NOOP"\<close> and whose status has the state \<open>"SUCCEEDED"\<close>, and
  \<open>succeeded\<close> is true of it. Its URL has the path \<open>operations/-1\<close>, from the sentinel
  id; the body of the response is not read.
\<close>

theorem from_response_204:
  "status_code r = 204 \<Longrightarrow>
     \<exists>operation. operation_from_response repr inst r = Inr operation
       \<and> op_url operation = \<lparr>url_instance = inst, path = JStr ''operations/-1''\<rparr>
       \<and> op_type operation = JStr ''NOOP''
       \<and> getitem (status operation) ''state'' = Inr (JStr ''SUCCEEDED'')
       \<and> succeeded operation = Inr True"
  by (simp add: operation_from_response_def noop_json_def succeeded_def dict_get_def format_def)

theorem from_response_204_witness:
  "\<exists>operation.
     operation_from_response no_repr local_instance
       \<lparr>status_code = 204, body = None, resp_url = []\<rparr> = Inr operation
       \<and> op_url operation = \<lparr>url_instance = local_instance, path = JStr ''operations/-1''\<rparr>
       \<and> op_type operation = JStr ''NOOP''
       \<and> getitem (status operation) ''state'' = Inr (JStr ''SUCCEEDED'')
       \<and> succeeded operation = Inr True"
  using from_response_204 [of "\<lparr>status_code = 204, body = None, resp_url = []\<rparr>" no_repr local_instance]
  by simp

section \<open>Steps of the wait loop\<close>

lemma poll_world:
  "snd (poll repr operation w) = w\<lparr>requests := requests w @ [GET (url_str repr (op_url operation)) []]\<rparr>"
  by (simp add: poll_def operation_from_url_def session_get_def split: option.splits sum.splits)

lemma operation_from_json_no_Timeout: "operation_from_json u j \<noteq> Inl (Timeout t)"
  by (cases j) (auto split: option.splits)

lemma poll_no_Timeout: "fst (poll repr operation w) \<noteq> Inl (Timeout t)"
  by (auto simp: poll_def operation_from_url_def session_get_def successful_def resp_json_def
      operation_from_json_no_Timeout split: option.splits sum.splits)

lemma getitem_no_Timeout: "getitem j k \<noteq> Inl (Timeout t)"
  by (cases j) (auto split: option.splits)

lemma getitem_JNull: "getitem j k = Inr v \<Longrightarrow> j \<noteq> JNull"
  by (cases j) auto

lemma wait_branch_absent:
  "status operation = JNull \<Longrightarrow> wait_branch poll_interval_seconds operation w = (Some (Inr operation), w)"
  by (simp add: wait_branch_def)

lemma wait_branch_lookup_error:
  "status operation \<noteq> JNull \<Longrightarrow> getitem (status operation) ''state'' = Inl e \<Longrightarrow>
     wait_branch poll_interval_seconds operation w = (Some (Inl e), w)"
  by (simp add: wait_branch_def)

lemma wait_branch_pending:
  "getitem (status operation) ''state'' = Inr s \<Longrightarrow> s \<in> set [JStr ''PENDING'', JStr ''RUNNING''] \<Longrightarrow>
     wait_branch poll_interval_seconds operation w =
       (if poll_interval_seconds < 0 then (Some (Inl ValueError), w)
        else (None, w\<lparr>sleeps := sleeps w @ [poll_interval_seconds]\<rparr>))"
  by (frule getitem_JNull) (simp add: wait_branch_def sleep_def)

lemma wait_branch_terminal:
  "getitem (status operation) ''state'' = Inr s \<Longrightarrow>
     s \<in> set [JStr ''CANCELED'', JStr ''SUCCEEDED'', JStr ''FAILED''] \<Longrightarrow>
     wait_branch poll_interval_seconds operation w = (Some (Inr operation), w)"
  by (frule getitem_JNull) (auto simp: wait_branch_def)

lemma wait_branch_unrecognized:
  "getitem (status operation) ''state'' = Inr s \<Longrightarrow>
     s \<notin> set [JStr ''PENDING'', JStr ''RUNNING''] \<Longrightarrow>
     s \<notin> set [JStr ''CANCELED'', JStr ''SUCCEEDED'', JStr ''FAILED''] \<Longrightarrow>
     wait_branch poll_interval_seconds operation w = (None, w)"
  by (frule getitem_JNull) (simp add: wait_branch_def)


lemma wait_branch_Some:
  assumes "wait_branch poll_interval_seconds operation w = (Some r, w1)"
  shows "w1 = w
     \<and> ((r = Inr operation \<and> resolved operation)
        \<or> (\<exists>e. r = Inl e \<and> status operation \<noteq> JNull \<and> getitem (status operation) ''state'' = Inl e)
        \<or> (r = Inl ValueError \<and> poll_interval_seconds < 0))"
proof (cases "status operation = JNull")
  case True
  with assms show ?thesis
    by (simp add: wait_branch_absent resolved_def)
next
  case False
  show ?thesis
  proof (cases "getitem (status operation) ''state''")
    case (Inl e)
    with assms False show ?thesis
      by (simp add: wait_branch_lookup_error)
  next
    case (Inr s)
    consider "s \<in> set [JStr ''PENDING'', JStr ''RUNNING'']"
      | "s \<in> set [JStr ''CANCELED'', JStr ''SUCCEEDED'', JStr ''FAILED'']"
      | "s \<notin> set [JStr ''PENDING'', JStr ''RUNNING'']"
        "s \<notin> set [JStr ''CANCELED'', JStr ''SUCCEEDED'', JStr ''FAILED'']"
      by blast
    then show ?thesis
    proof cases
      case 1
      from assms show ?thesis
        unfolding wait_branch_pending [OF Inr 1] by (simp split: if_splits)
    next
      case 2
      from assms have "r = Inr operation" "w1 = w"
        unfolding wait_branch_terminal [OF Inr 2] by simp_all
      moreover from Inr 2 have "resolved operation"
        unfolding resolved_def by simp
      ultimately show ?thesis by simp
    next
      case 3
      from assms show ?thesis
        unfolding wait_branch_unrecognized [OF Inr 3] by simp
    qed
  qed
qed

lemma wait_loop_step:
  assumes "deadline_check timeout_seconds started w = (True, w1)"
  shows "wait_loop repr poll_interval_seconds timeout_seconds started operation w =
     (case wait_branch poll_interval_seconds operation w1 of
        (Some r, w2) \<Rightarrow> Some (r, w2)
      | (None, w2) \<Rightarrow>
          (case poll repr operation w2 of
             (Inl e, w3) \<Rightarrow> Some (Inl e, w3)
           | (Inr operation', w3) \<Rightarrow>
               wait_loop repr poll_interval_seconds timeout_seconds started operation' w3))"
  by (subst wait_loop.simps) (simp add: assms)

lemma wait_loop_expired:
  assumes "deadline_check timeout_seconds started w = (False, w1)"
  shows "wait_loop repr poll_interval_seconds timeout_seconds started operation w =
     Some (Inl (Timeout timeout_seconds), w1)"
  by (subst wait_loop.simps) (simp add: assms)

lemma getitem_error: "getitem j k = Inl e \<Longrightarrow> e = KeyError k \<or> e = TypeError"
  by (cases j) (auto split: option.splits)

lemma wait_loop_outcome:
  assumes run: "wait_loop repr poll_interval_seconds timeout_seconds started operation w = Some y"
  shows "timeout_seconds = None \<longrightarrow>
     (\<exists>operation'. fst y = Inr operation' \<and> resolved operation')
     \<or> (\<exists>e. fst y = Inl e \<and> (\<forall>t. e \<noteq> Timeout t)
           \<and> ((\<exists>operation0 w0. poll repr operation0 w0 = (Inl e, snd y))
              \<or> own_error poll_interval_seconds e))"
    (is "?Q repr poll_interval_seconds timeout_seconds y")
proof (rule wait_loop.raw_induct
    [where P = "\<lambda>repr poll_interval_seconds timeout_seconds started operation w y.
                  ?Q repr poll_interval_seconds timeout_seconds y", OF _ run])
  fix loop :: "(json \<Rightarrow> string) \<Rightarrow> int \<Rightarrow> int option \<Rightarrow> real \<Rightarrow> Operation \<Rightarrow> world
      \<Rightarrow> ((error + Operation) \<times> world) option"
    and repr poll_interval_seconds timeout_seconds started operation w y
  assume IH: "\<And>repr poll_interval_seconds timeout_seconds started operation w y.
      loop repr poll_interval_seconds timeout_seconds started operation w = Some y \<Longrightarrow>
      ?Q repr poll_interval_seconds timeout_seconds y"
  assume body: "(case deadline_check timeout_seconds started w of
        (go, w1) \<Rightarrow>
          if \<not> go then Some (Inl (Timeout timeout_seconds), w1)
          else (case wait_branch poll_interval_seconds operation w1 of
                  (Some r, w2) \<Rightarrow> Some (r, w2)
                | (None, w2) \<Rightarrow>
                    (case poll repr operation w2 of
                       (Inl e, w3) \<Rightarrow> Some (Inl e, w3)
                     | (Inr operation', w3) \<Rightarrow>
                         loop repr poll_interval_seconds timeout_seconds started operation' w3))) = Some y"
  show "?Q repr poll_interval_seconds timeout_seconds y"
  proof
    assume none: "timeout_seconds = None"
    then have dc: "deadline_check timeout_seconds started w = (True, w)"
      by (simp add: deadline_check_def)
    obtain b w1 where br: "wait_branch poll_interval_seconds operation w = (b, w1)"
      by (cases "wait_branch poll_interval_seconds operation w")
    show "(\<exists>operation'. fst y = Inr operation' \<and> resolved operation')
     \<or> (\<exists>e. fst y = Inl e \<and> (\<forall>t. e \<noteq> Timeout t)
           \<and> ((\<exists>operation0 w0. poll repr operation0 w0 = (Inl e, snd y))
              \<or> own_error poll_interval_seconds e))"
    proof (cases b)
      case (Some r)
      from body dc br Some have y: "y = (r, w1)"
        by simp
      from wait_branch_Some [OF br [unfolded Some]]
      consider "r = Inr operation" "resolved operation"
        | e where "r = Inl e" "status operation \<noteq> JNull" "getitem (status operation) ''state'' = Inl e"
        | "r = Inl ValueError" "poll_interval_seconds < 0"
        by blast
      then show ?thesis
      proof cases
        case 1
        with y show ?thesis by simp
      next
        case 2
        have "e \<noteq> Timeout t" for t
          using getitem_no_Timeout [of "status operation" "''state''" t] 2 by auto
        moreover from getitem_error [OF 2(3)] have "own_error poll_interval_seconds e"
          unfolding own_error_def by blast
        ultimately show ?thesis using 2 y by simp
      next
        case 3
        then have "own_error poll_interval_seconds ValueError"
          unfolding own_error_def by simp
        with 3 y show ?thesis by simp
      qed
    next
      case None
      obtain p w3 where pl: "poll repr operation w1 = (p, w3)"
        by (cases "poll repr operation w1")
      show ?thesis
      proof (cases p)
        case (Inl e)
        from body dc br None pl Inl have y: "y = (Inl e, w3)"
          by simp
        have "e \<noteq> Timeout t" for t
          using poll_no_Timeout [of repr operation w1 t] pl Inl by simp
        moreover have "\<exists>operation0 w0. poll repr operation0 w0 = (Inl e, w3)"
          using pl Inl by blast
        ultimately show ?thesis using y by simp
      next
        case (Inr operation')
        from body dc br None pl Inr
        have "loop repr poll_interval_seconds timeout_seconds started operation' w3 = Some y"
          by simp
        from IH [OF this] none show ?thesis by simp
      qed
    qed
  qed
qed

lemma poll_answer:
  assumes "server w (length (requests w)) (GET (url_str repr (op_url operation)) []) = Some r"
    and "200 \<le> status_code r" and "status_code r < 300" and "body r = Some j"
  shows "poll repr operation w =
     (operation_from_json (op_url operation) j,
      w\<lparr>requests := requests w @ [GET (url_str repr (op_url operation)) []]\<rparr>)"
  using assms
  by (simp add: poll_def operation_from_url_def session_get_def successful_def resp_json_def)

lemma deadline_check_None: "deadline_check None started w = (True, w)"
  by (simp add: deadline_check_def)

lemma deadline_check_Some:
  "deadline_check (Some t) started w =
     (clock w (ticks w) - started < real_of_int t, w\<lparr>ticks := Suc (ticks w)\<rparr>)"
  by (simp add: deadline_check_def now_def)

lemma wait_unfold:
  "wait repr operation poll_interval_seconds timeout_seconds w =
     wait_loop repr poll_interval_seconds timeout_seconds (clock w (ticks w)) operation
       (w\<lparr>ticks := Suc (ticks w)\<rparr>)"
  by (simp add: wait_def now_def)

lemma wait_branch_resolved:
  assumes "resolved operation"
  shows "wait_branch poll_interval_seconds operation w = (Some (Inr operation), w)"
proof (cases "status operation = JNull")
  case True
  then show ?thesis by (rule wait_branch_absent)
next
  case False
  with assms obtain s where "getitem (status operation) ''state'' = Inr s"
    "s \<in> set [JStr ''CANCELED'', JStr ''SUCCEEDED'', JStr ''FAILED'']"
    unfolding resolved_def by (auto split: sum.splits)
  then show ?thesis by (rule wait_branch_terminal)
qed

lemma wait_resolved:
  assumes "resolved operation"
  shows "wait repr operation poll_interval_seconds timeout_seconds w =
     (case timeout_seconds of
        None \<Rightarrow> Some (Inr operation, w\<lparr>ticks := Suc (ticks w)\<rparr>)
      | Some t \<Rightarrow>
          Some (if clock w (Suc (ticks w)) - clock w (ticks w) < real_of_int t
                then Inr operation else Inl (Timeout (Some t)),
                w\<lparr>ticks := Suc (Suc (ticks w))\<rparr>))"
proof (cases timeout_seconds)
  case None
  show ?thesis
    unfolding wait_unfold None
    by (subst wait_loop_step [OF deadline_check_None])
       (simp add: wait_branch_resolved [OF assms])
next
  case (Some t)
  let ?w0 = "w\<lparr>ticks := Suc (ticks w)\<rparr>"
  show ?thesis
  proof (cases "clock w (Suc (ticks w)) - clock w (ticks w) < real_of_int t")
    case True
    then have dc: "deadline_check (Some t) (clock w (ticks w)) ?w0 = (True, w\<lparr>ticks := Suc (Suc (ticks w))\<rparr>)"
      by (simp add: deadline_check_Some)
    show ?thesis
      unfolding wait_unfold Some
      by (subst wait_loop_step [OF dc]) (simp add: wait_branch_resolved [OF assms] True)
  next
    case False
    then have dc: "deadline_check (Some t) (clock w (ticks w)) ?w0 = (False, w\<lparr>ticks := Suc (Suc (ticks w))\<rparr>)"
      by (simp add: deadline_check_Some)
    show ?thesis
      unfolding wait_unfold Some
      by (subst wait_loop_expired [OF dc]) (simp add: False)
  qed
qed

section \<open>Waiting for an operation\<close>

text \<open>
  C1. The operation passed to \<open>wait\<close> is \<open>PENDING\<close>, the first poll of its URL answers
  with a \<open>PENDING\<close> snapshot and the second with a \<open>SUCCEEDED\<close> one. Then \<open>wait\<close>,
  called without a timeout and with a non-negative poll interval, returns the
  \<open>SUCCEEDED\<close> snapshot after exactly two sleeps and exactly two polls (requests to the
  URL of the operation); the clock is read once.
\<close>

theorem wait_pending_pending_succeeded:
  assumes interval: "0 \<le> poll_interval_seconds"
    and pending: "getitem (status operation) ''state'' = Inr (JStr ''PENDING'')"
    and first: "server w (length (requests w)) (GET (url_str repr (op_url operation)) []) = Some r1"
      "200 \<le> status_code r1" "status_code r1 < 300" "body r1 = Some j1"
      "operation_from_json (op_url operation) j1 = Inr operation1"
      "getitem (status operation1) ''state'' = Inr (JStr ''PENDING'')"
    and second: "server w (Suc (length (requests w))) (GET (url_str repr (op_url operation)) []) = Some r2"
      "200 \<le> status_code r2" "status_code r2 < 300" "body r2 = Some j2"
      "operation_from_json (op_url operation) j2 = Inr operation2"
      "getitem (status operation2) ''state'' = Inr (JStr ''SUCCEEDED'')"
  shows "wait repr operation poll_interval_seconds None w =
     Some (Inr operation2,
           w\<lparr>ticks := Suc (ticks w),
             sleeps := sleeps w @ [poll_interval_seconds, poll_interval_seconds],
             requests := requests w @ [GET (url_str repr (op_url operation)) [],
                                       GET (url_str repr (op_url operation)) []]\<rparr>)"
proof -
  let ?g = "GET (url_str repr (op_url operation)) []"
  let ?started = "clock w (ticks w)"
  let ?w0 = "w\<lparr>ticks := Suc (ticks w)\<rparr>"
  let ?w1 = "?w0\<lparr>sleeps := sleeps ?w0 @ [poll_interval_seconds]\<rparr>"
  let ?w2 = "?w1\<lparr>requests := requests ?w1 @ [?g]\<rparr>"
  let ?w3 = "?w2\<lparr>sleeps := sleeps ?w2 @ [poll_interval_seconds]\<rparr>"
  let ?w4 = "?w3\<lparr>requests := requests ?w3 @ [?g]\<rparr>"
  have url1: "op_url operation1 = op_url operation"
    using first(5) by (rule operation_from_json_url)
  have b0: "wait_branch poll_interval_seconds operation ?w0 = (None, ?w1)"
    using wait_branch_pending [OF pending, of poll_interval_seconds ?w0] interval by simp
  have p0: "poll repr operation ?w1 = (Inr operation1, ?w2)"
    using poll_answer [of ?w1 repr operation r1 j1] first by simp
  have b1: "wait_branch poll_interval_seconds operation1 ?w2 = (None, ?w3)"
    using wait_branch_pending [OF first(6), of poll_interval_seconds ?w2] interval by simp
  have p1: "poll repr operation1 ?w3 = (Inr operation2, ?w4)"
    using poll_answer [of ?w3 repr operation1 r2 j2] second url1 by simp
  have b2: "wait_branch poll_interval_seconds operation2 ?w4 = (Some (Inr operation2), ?w4)"
    using wait_branch_terminal [OF second(6), of poll_interval_seconds ?w4] by simp
  have "wait repr operation poll_interval_seconds None w =
      wait_loop repr poll_interval_seconds None ?started operation ?w0"
    by (rule wait_unfold)
  also have "\<dots> = wait_loop repr poll_interval_seconds None ?started operation1 ?w2"
    by (subst wait_loop_step [OF deadline_check_None]) (simp add: b0 [simplified] p0 [simplified])
  also have "\<dots> = wait_loop repr poll_interval_seconds None ?started operation2 ?w4"
    by (subst wait_loop_step [OF deadline_check_None]) (simp add: b1 [simplified] p1 [simplified])
  also have "\<dots> = Some (Inr operation2, ?w4)"
    by (subst wait_loop_step [OF deadline_check_None]) (simp add: b2 [simplified])
  finally show ?thesis by simp
qed

theorem wait_pending_pending_succeeded_witness:
  "wait no_repr (operation_with (status_json ''PENDING'')) 3 None
     (world_of [ok (operation_json (status_json ''PENDING'')),
                ok (operation_json (status_json ''SUCCEEDED''))] 1) =
   Some (Inr (operation_with (status_json ''SUCCEEDED'')),
         (world_of [ok (operation_json (status_json ''PENDING'')),
                    ok (operation_json (status_json ''SUCCEEDED''))] 1)
           \<lparr>ticks := 1, sleeps := [3, 3],
            requests := [GET (url_str no_repr operation_url) [],
                         GET (url_str no_repr operation_url) []]\<rparr>)"
  using wait_pending_pending_succeeded
    [of 3 "operation_with (status_json ''PENDING'')"
        "world_of [ok (operation_json (status_json ''PENDING'')),
                   ok (operation_json (status_json ''SUCCEEDED''))] 1"
        no_repr
        "ok (operation_json (status_json ''PENDING''))" "operation_json (status_json ''PENDING'')"
        "operation_with (status_json ''PENDING'')"
        "ok (operation_json (status_json ''SUCCEEDED''))" "operation_json (status_json ''SUCCEEDED'')"
        "operation_with (status_json ''SUCCEEDED'')"]
  by (simp add: operation_with_def status_json_def world_of_def scripted_def ok_def
      operation_json_def dict_get_def)

lemma wait_branch_world:
  assumes "wait_branch poll_interval_seconds operation w = (b, w1)"
  shows "clock w1 = clock w \<and> ticks w1 = ticks w \<and> server w1 = server w"
  using assms
  by (auto simp: wait_branch_def sleep_def split: if_splits sum.splits)

lemma wait_branch_no_Timeout:
  assumes "wait_branch poll_interval_seconds operation w = (Some r, w1)"
  shows "r \<noteq> Inl (Timeout t)"
proof -
  from wait_branch_Some [OF assms]
  consider "r = Inr operation"
    | e where "r = Inl e" "getitem (status operation) ''state'' = Inl e"
    | "r = Inl ValueError"
    by blast
  then show ?thesis
  proof cases
    case 2
    with getitem_no_Timeout [of "status operation" "''state''" t] show ?thesis by auto
  qed simp_all
qed

lemma deadline_check_world:
  assumes "deadline_check timeout_seconds started w = (go, w1)"
  shows "clock w1 = clock w \<and> ticks w \<le> ticks w1 \<and> server w1 = server w"
  using assms by (cases timeout_seconds) (auto simp: deadline_check_None deadline_check_Some)

lemma wait_loop_Timeout:
  assumes run: "wait_loop repr poll_interval_seconds timeout_seconds started operation w = Some y"
  shows "clock (snd y) = clock w \<and> ticks w \<le> ticks (snd y)
     \<and> (\<forall>t. fst y = Inl (Timeout t) \<longrightarrow>
           (\<exists>s. timeout_seconds = Some s \<and> t = Some s \<and> ticks w < ticks (snd y)
              \<and> real_of_int s \<le> clock w (ticks (snd y) - 1) - started))"
    (is "?Q timeout_seconds started w y")
proof (rule wait_loop.raw_induct
    [where P = "\<lambda>repr poll_interval_seconds timeout_seconds started operation w y.
                  ?Q timeout_seconds started w y", OF _ run])
  fix loop :: "(json \<Rightarrow> string) \<Rightarrow> int \<Rightarrow> int option \<Rightarrow> real \<Rightarrow> Operation \<Rightarrow> world
      \<Rightarrow> ((error + Operation) \<times> world) option"
    and repr poll_interval_seconds timeout_seconds started operation w y
  assume IH: "\<And>repr poll_interval_seconds timeout_seconds started operation w y.
      loop repr poll_interval_seconds timeout_seconds started operation w = Some y \<Longrightarrow>
      ?Q timeout_seconds started w y"
  assume body: "(case deadline_check timeout_seconds started w of
        (go, w1) \<Rightarrow>
          if \<not> go then Some (Inl (Timeout timeout_seconds), w1)
          else (case wait_branch poll_interval_seconds operation w1 of
                  (Some r, w2) \<Rightarrow> Some (r, w2)
                | (None, w2) \<Rightarrow>
                    (case poll repr operation w2 of
                       (Inl e, w3) \<Rightarrow> Some (Inl e, w3)
                     | (Inr operation', w3) \<Rightarrow>
                         loop repr poll_interval_seconds timeout_seconds started operation' w3))) = Some y"
  obtain go w1 where dc: "deadline_check timeout_seconds started w = (go, w1)"
    by (cases "deadline_check timeout_seconds started w")
  note w1 = deadline_check_world [OF dc]
  show "?Q timeout_seconds started w y"
  proof (cases go)
    case False
    with body dc have y: "y = (Inl (Timeout timeout_seconds), w1)"
      by simp
    from dc False obtain s where s: "timeout_seconds = Some s"
      by (cases timeout_seconds) (auto simp: deadline_check_None)
    from dc False have "w1 = w\<lparr>ticks := Suc (ticks w)\<rparr>"
      "\<not> clock w (ticks w) - started < real_of_int s"
      unfolding s deadline_check_Some by simp_all
    with y s show ?thesis by simp
  next
    case True
    obtain b w2 where br: "wait_branch poll_interval_seconds operation w1 = (b, w2)"
      by (cases "wait_branch poll_interval_seconds operation w1")
    note w2 = wait_branch_world [OF br]
    show ?thesis
    proof (cases b)
      case (Some r)
      with body dc True br have y: "y = (r, w2)"
        by simp
      from wait_branch_no_Timeout [OF br [unfolded Some]] have "r \<noteq> Inl (Timeout t)" for t .
      with y w1 w2 show ?thesis by simp
    next
      case None
      obtain p w3 where pl: "poll repr operation w2 = (p, w3)"
        by (cases "poll repr operation w2")
      from poll_world [of repr operation w2] pl
      have w3: "clock w3 = clock w2" "ticks w3 = ticks w2"
        by simp_all
      show ?thesis
      proof (cases p)
        case (Inl e)
        with body dc True br None pl have y: "y = (Inl e, w3)"
          by simp
        have "e \<noteq> Timeout t" for t
          using poll_no_Timeout [of repr operation w2 t] pl Inl by simp
        with y w1 w2 w3 show ?thesis by simp
      next
        case (Inr operation')
        with body dc True br None pl
        have "loop repr poll_interval_seconds timeout_seconds started operation' w3 = Some y"
          by simp
        from IH [OF this] have Q: "?Q timeout_seconds started w3 y" .
        from w1 w2 w3 have eq: "clock w3 = clock w" "ticks w \<le> ticks w3"
          by simp_all
        from Q eq show ?thesis
          by (auto intro: order_trans)
      qed
    qed
  qed
qed

text \<open>
  C2, as the code has it. An operation whose status has a state that is none of
  \<open>PENDING\<close>, \<open>RUNNING\<close>, \<open>CANCELED\<close>, \<open>SUCCEEDED\<close>, \<open>FAILED\<close> matches no branch of
  the \<open>if\<close>/\<open>elif\<close> chain, and control reaches the \<open>poll\<close> after it: in an iteration
  whose deadline check passes, \<open>wait\<close> does not sleep, polls the operation at once and
  goes on with the snapshot polled (or raises what the poll raises, which is never
  \<open>Timeout\<close>). The timeout failure is reached through a failed deadline check only:
  if the call ends in \<open>Timeout\<close>, a timeout is set and a later check, the last clock
  reading of the call, found at least \<open>timeout_seconds\<close> elapsed since the start.
\<close>

theorem wait_unrecognized_state_polls:
  assumes "getitem (status operation) ''state'' = Inr s"
    and "s \<notin> set [JStr ''PENDING'', JStr ''RUNNING'']"
    and "s \<notin> set [JStr ''CANCELED'', JStr ''SUCCEEDED'', JStr ''FAILED'']"
    and "deadline_check timeout_seconds started w = (True, w1)"
  shows "wait_loop repr poll_interval_seconds timeout_seconds started operation w =
       (case poll repr operation w1 of
          (Inl e, w2) \<Rightarrow> Some (Inl e, w2)
        | (Inr operation', w2) \<Rightarrow>
            wait_loop repr poll_interval_seconds timeout_seconds started operation' w2)
     \<and> snd (poll repr operation w1) =
         w1\<lparr>requests := requests w1 @ [GET (url_str repr (op_url operation)) []]\<rparr>
     \<and> sleeps (snd (poll repr operation w1)) = sleeps w
     \<and> requests w1 = requests w
     \<and> (\<forall>t. fst (poll repr operation w1) \<noteq> Inl (Timeout t))
     \<and> (\<forall>t w'. wait_loop repr poll_interval_seconds timeout_seconds started operation w =
                   Some (Inl (Timeout t), w') \<longrightarrow>
            (\<exists>s. timeout_seconds = Some s \<and> t = Some s \<and> ticks w1 < ticks w'
               \<and> real_of_int s \<le> clock w (ticks w' - 1) - started))"
proof -
  have "wait_branch poll_interval_seconds operation w1 = (None, w1)"
    using assms(1-3) by (rule wait_branch_unrecognized)
  then have step: "wait_loop repr poll_interval_seconds timeout_seconds started operation w =
       (case poll repr operation w1 of
          (Inl e, w2) \<Rightarrow> Some (Inl e, w2)
        | (Inr operation', w2) \<Rightarrow>
            wait_loop repr poll_interval_seconds timeout_seconds started operation' w2)"
    by (subst wait_loop_step [OF assms(4)]) simp
  have logs: "sleeps w1 = sleeps w" "requests w1 = requests w"
    using assms(4) by (cases timeout_seconds; auto simp: deadline_check_None deadline_check_Some)+
  have w1: "clock w1 = clock w"
    using deadline_check_world [OF assms(4)] by simp
  have later: "\<exists>s. timeout_seconds = Some s \<and> t = Some s \<and> ticks w1 < ticks w'
      \<and> real_of_int s \<le> clock w (ticks w' - 1) - started"
    if run: "wait_loop repr poll_interval_seconds timeout_seconds started operation w =
      Some (Inl (Timeout t), w')" for t w'
  proof -
    obtain p w2 where pl: "poll repr operation w1 = (p, w2)"
      by (cases "poll repr operation w1")
    from poll_world [of repr operation w1] pl
    have w2: "clock w2 = clock w1" "ticks w2 = ticks w1"
      by simp_all
    show ?thesis
    proof (cases p)
      case (Inl e)
      with run pl have "e = Timeout t"
        unfolding step by simp
      with poll_no_Timeout [of repr operation w1 t] pl Inl show ?thesis
        by simp
    next
      case (Inr operation')
      with run pl
      have "wait_loop repr poll_interval_seconds timeout_seconds started operation' w2 =
          Some (Inl (Timeout t), w')"
        unfolding step by simp
      from wait_loop_Timeout [OF this] w1 w2 show ?thesis
        by simp
    qed
  qed
  from step logs later show ?thesis
    by (simp add: poll_world poll_no_Timeout)
qed

theorem wait_unrecognized_state_polls_witness:
  "wait_loop no_repr 3 (Some 2) 0 (operation_with (status_json ''UNKNOWN''))
     (world_of [ok (operation_json (status_json ''UNKNOWN'')),
                ok (operation_json (status_json ''UNKNOWN''))] 1) =
   Some (Inl (Timeout (Some 2)),
         (world_of [ok (operation_json (status_json ''UNKNOWN'')),
                    ok (operation_json (status_json ''UNKNOWN''))] 1)
           \<lparr>ticks := 3,
            requests := [GET (url_str no_repr operation_url) [],
                         GET (url_str no_repr operation_url) []]\<rparr>)
   \<and> sleeps (snd (poll no_repr (operation_with (status_json ''UNKNOWN''))
                 ((world_of [ok (operation_json (status_json ''UNKNOWN'')),
                             ok (operation_json (status_json ''UNKNOWN''))] 1)\<lparr>ticks := 1\<rparr>))) = []
   \<and> real_of_int 2 \<le>
       clock (world_of [ok (operation_json (status_json ''UNKNOWN'')),
                        ok (operation_json (status_json ''UNKNOWN''))] 1) (3 - 1) - 0"
proof -
  let ?v = "world_of [ok (operation_json (status_json ''UNKNOWN'')),
                      ok (operation_json (status_json ''UNKNOWN''))] 1"
  let ?op = "operation_with (status_json ''UNKNOWN'')"
  let ?g = "GET (url_str no_repr operation_url) []"
  let ?a = "?v\<lparr>ticks := 1\<rparr>"
  let ?b = "?v\<lparr>ticks := 1, requests := [?g]\<rparr>"
  let ?c = "?v\<lparr>ticks := 2, requests := [?g]\<rparr>"
  let ?d = "?v\<lparr>ticks := 2, requests := [?g, ?g]\<rparr>"
  let ?e = "?v\<lparr>ticks := 3, requests := [?g, ?g]\<rparr>"
  have state: "getitem (status ?op) ''state'' = Inr (JStr ''UNKNOWN'')"
    by (simp add: operation_with_def status_json_def)
  have other: "JStr ''UNKNOWN'' \<notin> set [JStr ''PENDING'', JStr ''RUNNING'']"
    "JStr ''UNKNOWN'' \<notin> set [JStr ''CANCELED'', JStr ''SUCCEEDED'', JStr ''FAILED'']"
    by simp_all
  have branch: "wait_branch 3 ?op w = (None, w)" for w
    using state other by (rule wait_branch_unrecognized)
  have d1: "deadline_check (Some 2) 0 ?v = (True, ?a)"
    by (simp add: deadline_check_Some world_of_def)
  have d2: "deadline_check (Some 2) 0 ?b = (True, ?c)"
    by (simp add: deadline_check_Some world_of_def numeral_2_eq_2)
  have d3: "deadline_check (Some 2) 0 ?d = (False, ?e)"
    by (simp add: deadline_check_Some world_of_def numeral_2_eq_2 numeral_3_eq_3)
  have p1: "poll no_repr ?op ?a = (Inr ?op, ?b)"
    using poll_answer [of ?a no_repr ?op "ok (operation_json (status_json ''UNKNOWN''))"
        "operation_json (status_json ''UNKNOWN'')"]
    by (simp add: operation_with_def world_of_def scripted_def ok_def operation_json_def
        status_json_def dict_get_def)
  have p2: "poll no_repr ?op ?c = (Inr ?op, ?d)"
    using poll_answer [of ?c no_repr ?op "ok (operation_json (status_json ''UNKNOWN''))"
        "operation_json (status_json ''UNKNOWN'')"]
    by (simp add: operation_with_def world_of_def scripted_def ok_def operation_json_def
        status_json_def dict_get_def)
  have "wait_loop no_repr 3 (Some 2) 0 ?op ?v = wait_loop no_repr 3 (Some 2) 0 ?op ?b"
    by (subst wait_loop_step [OF d1]) (simp add: branch p1 [simplified])
  also have "\<dots> = wait_loop no_repr 3 (Some 2) 0 ?op ?d"
    by (subst wait_loop_step [OF d2]) (simp add: branch p2 [simplified])
  also have "\<dots> = Some (Inl (Timeout (Some 2)), ?e)"
    by (rule wait_loop_expired [OF d3])
  finally have run: "wait_loop no_repr 3 (Some 2) 0 ?op ?v = Some (Inl (Timeout (Some 2)), ?e)" .
  note polls = wait_unrecognized_state_polls [OF state other d1, of no_repr 3]
  from polls have "sleeps (snd (poll no_repr ?op ?a)) = sleeps ?v"
    by simp
  then have quiet: "sleeps (snd (poll no_repr ?op ?a)) = []"
    by (simp add: world_of_def)
  from polls have "\<forall>t w'. wait_loop no_repr 3 (Some 2) 0 ?op ?v = Some (Inl (Timeout t), w') \<longrightarrow>
      (\<exists>s. Some 2 = Some s \<and> t = Some s \<and> ticks ?a < ticks w'
         \<and> real_of_int s \<le> clock ?v (ticks w' - 1) - 0)"
    by simp
  from this [rule_format, OF run] have "real_of_int 2 \<le> clock ?v (3 - 1) - 0"
    by simp
  with run quiet show ?thesis
    by simp
qed

text \<open>
  The claim C2 says that such an operation leads to the timeout failure without another
  poll. Here the operation has the state \<open>UNKNOWN\<close>, no timeout is set and the server
  answers the first poll with a \<open>SUCCEEDED\<close> snapshot: \<open>wait\<close> returns that snapshot
  after one request and no sleep.
\<close>

theorem wait_unrecognized_state_counterexample:
  "wait no_repr (operation_with (status_json ''UNKNOWN'')) 3 None
     (world_of [ok (operation_json (status_json ''SUCCEEDED''))] 1) =
   Some (Inr (operation_with (status_json ''SUCCEEDED'')),
         (world_of [ok (operation_json (status_json ''SUCCEEDED''))] 1)
           \<lparr>ticks := 1, requests := [GET (url_str no_repr operation_url) []]\<rparr>)"
proof -
  let ?v = "world_of [ok (operation_json (status_json ''SUCCEEDED''))] 1"
  let ?w0 = "?v\<lparr>ticks := Suc (ticks ?v)\<rparr>"
  let ?w1 = "?w0\<lparr>requests := requests ?w0 @ [GET (url_str no_repr operation_url) []]\<rparr>"
  have b0: "wait_branch 3 (operation_with (status_json ''UNKNOWN'')) ?w0 = (None, ?w0)"
    by (rule wait_branch_unrecognized [where s = "JStr ''UNKNOWN''"])
       (simp_all add: operation_with_def status_json_def)
  have p0: "poll no_repr (operation_with (status_json ''UNKNOWN'')) ?w0 =
      (Inr (operation_with (status_json ''SUCCEEDED'')), ?w1)"
    using poll_answer [of ?w0 no_repr "operation_with (status_json ''UNKNOWN'')"
        "ok (operation_json (status_json ''SUCCEEDED''))" "operation_json (status_json ''SUCCEEDED'')"]
    by (simp add: operation_with_def world_of_def scripted_def ok_def operation_json_def
        status_json_def dict_get_def)
  have b1: "wait_branch 3 (operation_with (status_json ''SUCCEEDED'')) ?w1 =
      (Some (Inr (operation_with (status_json ''SUCCEEDED''))), ?w1)"
    by (rule wait_branch_terminal [where s = "JStr ''SUCCEEDED''"])
       (simp_all add: operation_with_def status_json_def)
  have "wait no_repr (operation_with (status_json ''UNKNOWN'')) 3 None ?v =
      wait_loop no_repr 3 None (clock ?v (ticks ?v)) (operation_with (status_json ''UNKNOWN'')) ?w0"
    by (rule wait_unfold)
  also have "\<dots> = wait_loop no_repr 3 None (clock ?v (ticks ?v))
      (operation_with (status_json ''SUCCEEDED'')) ?w1"
    by (subst wait_loop_step [OF deadline_check_None]) (simp add: b0 [simplified] p0 [simplified])
  also have "\<dots> = Some (Inr (operation_with (status_json ''SUCCEEDED'')), ?w1)"
    by (subst wait_loop_step [OF deadline_check_None]) (simp add: b1 [simplified])
  finally show ?thesis
    by (simp add: world_of_def)
qed

text \<open>
  C4, as the code has it. \<open>wait\<close> raises \<open>Timeout\<close> only when a timeout is set and a
  deadline check fails, that is when the clock reading of that check, the last of the
  call, is at least \<open>timeout_seconds\<close> later than the reading at the start. The check
  comes before the status is looked at: an operation that is already terminal or has no
  status is returned exactly when the first check passes, and \<open>Timeout\<close> is raised for
  it when the first check fails.
\<close>

theorem wait_timeout_at_deadline_check:
  "(\<forall>t w'. wait repr operation poll_interval_seconds timeout_seconds w = Some (Inl (Timeout t), w') \<longrightarrow>
       (\<exists>s. timeout_seconds = Some s \<and> t = Some s \<and> clock w' = clock w \<and> Suc (ticks w) < ticks w'
          \<and> real_of_int s \<le> clock w (ticks w' - 1) - clock w (ticks w)))
   \<and> (resolved operation \<longrightarrow>
        wait repr operation poll_interval_seconds timeout_seconds w =
          (case timeout_seconds of
             None \<Rightarrow> Some (Inr operation, w\<lparr>ticks := Suc (ticks w)\<rparr>)
           | Some t \<Rightarrow>
               Some (if clock w (Suc (ticks w)) - clock w (ticks w) < real_of_int t
                     then Inr operation else Inl (Timeout (Some t)),
                     w\<lparr>ticks := Suc (Suc (ticks w))\<rparr>)))"
proof (intro conjI allI impI)
  fix t w'
  assume "wait repr operation poll_interval_seconds timeout_seconds w = Some (Inl (Timeout t), w')"
  then have "wait_loop repr poll_interval_seconds timeout_seconds (clock w (ticks w)) operation
      (w\<lparr>ticks := Suc (ticks w)\<rparr>) = Some (Inl (Timeout t), w')"
    by (simp add: wait_unfold)
  from wait_loop_Timeout [OF this]
  show "\<exists>s. timeout_seconds = Some s \<and> t = Some s \<and> clock w' = clock w \<and> Suc (ticks w) < ticks w'
          \<and> real_of_int s \<le> clock w (ticks w' - 1) - clock w (ticks w)"
    by simp
next
  assume "resolved operation"
  then show "wait repr operation poll_interval_seconds timeout_seconds w =
          (case timeout_seconds of
             None \<Rightarrow> Some (Inr operation, w\<lparr>ticks := Suc (ticks w)\<rparr>)
           | Some t \<Rightarrow>
               Some (if clock w (Suc (ticks w)) - clock w (ticks w) < real_of_int t
                     then Inr operation else Inl (Timeout (Some t)),
                     w\<lparr>ticks := Suc (Suc (ticks w))\<rparr>))"
    by (rule wait_resolved)
qed

theorem wait_timeout_at_deadline_check_witness:
  "wait no_repr (operation_with (status_json ''FAILED'')) 3 (Some 5) (world_of [] 1) =
     Some (Inr (operation_with (status_json ''FAILED'')), (world_of [] 1)\<lparr>ticks := 2\<rparr>)
   \<and> wait no_repr (operation_with (status_json ''FAILED'')) 3 (Some 1) (world_of [] 1) =
     Some (Inl (Timeout (Some 1)), (world_of [] 1)\<lparr>ticks := 2\<rparr>)
   \<and> real_of_int 1 \<le> clock (world_of [] 1) (2 - 1) - clock (world_of [] 1) 0"
proof -
  have expired: "wait no_repr (operation_with (status_json ''FAILED'')) 3 (Some 1) (world_of [] 1) =
     Some (Inl (Timeout (Some 1)), (world_of [] 1)\<lparr>ticks := 2\<rparr>)"
    using wait_timeout_at_deadline_check
      [of no_repr "operation_with (status_json ''FAILED'')" 3 "Some 1" "world_of [] 1"]
    by (simp add: resolved_def operation_with_def status_json_def world_of_def numeral_2_eq_2)
  have passed: "wait no_repr (operation_with (status_json ''FAILED'')) 3 (Some 5) (world_of [] 1) =
     Some (Inr (operation_with (status_json ''FAILED'')), (world_of [] 1)\<lparr>ticks := 2\<rparr>)"
    using wait_timeout_at_deadline_check
      [of no_repr "operation_with (status_json ''FAILED'')" 3 "Some 5" "world_of [] 1"]
    by (simp add: resolved_def operation_with_def status_json_def world_of_def numeral_2_eq_2)
  from wait_timeout_at_deadline_check
      [of no_repr "operation_with (status_json ''FAILED'')" 3 "Some 1" "world_of [] 1",
       THEN conjunct1, rule_format, OF expired]
  have "real_of_int 1 \<le> clock (world_of [] 1) (2 - 1) - clock (world_of [] 1) 0"
    by (simp add: world_of_def)
  with expired passed show ?thesis by simp
qed

text \<open>
  The claim C4 says that \<open>wait\<close> never raises \<open>Timeout\<close> for an operation that is
  already terminal, whatever the timeout. With \<open>timeout_seconds = 0\<close> and a clock
  that advances by one second per reading it does, for a \<open>SUCCEEDED\<close> operation.
\<close>

theorem wait_terminal_counterexample:
  "resolved (operation_with (status_json ''SUCCEEDED''))
   \<and> wait no_repr (operation_with (status_json ''SUCCEEDED'')) 3 (Some 0) (world_of [] 1) =
       Some (Inl (Timeout (Some 0)), (world_of [] 1)\<lparr>ticks := 2\<rparr>)"
  by (simp add: wait_resolved resolved_def operation_with_def status_json_def world_of_def
      numeral_2_eq_2)

text \<open>
  C5. With \<open>timeout_seconds = 0\<close>, and a clock that does not run backwards between the
  reading at the start and the reading of the first deadline check, \<open>wait\<close> raises
  \<open>Timeout\<close> carrying the configured timeout for every operation, and neither sleeps
  nor polls: the logs of sleeps and of requests are unchanged.
\<close>

theorem wait_timeout_zero:
  assumes "clock w (ticks w) \<le> clock w (Suc (ticks w))"
  shows "wait repr operation poll_interval_seconds (Some 0) w =
       Some (Inl (Timeout (Some 0)), w\<lparr>ticks := Suc (Suc (ticks w))\<rparr>)
     \<and> sleeps (w\<lparr>ticks := Suc (Suc (ticks w))\<rparr>) = sleeps w
     \<and> requests (w\<lparr>ticks := Suc (Suc (ticks w))\<rparr>) = requests w"
proof -
  from assms
  have "deadline_check (Some 0) (clock w (ticks w)) (w\<lparr>ticks := Suc (ticks w)\<rparr>) =
      (False, w\<lparr>ticks := Suc (Suc (ticks w))\<rparr>)"
    by (simp add: deadline_check_Some)
  then show ?thesis
    unfolding wait_unfold by (simp add: wait_loop_expired)
qed

theorem wait_timeout_zero_witness:
  "wait no_repr (operation_with (status_json ''RUNNING'')) 3 (Some 0) (world_of [] 1) =
     Some (Inl (Timeout (Some 0)), (world_of [] 1)\<lparr>ticks := 2\<rparr>)
   \<and> sleeps ((world_of [] 1)\<lparr>ticks := 2\<rparr>) = []
   \<and> requests ((world_of [] 1)\<lparr>ticks := 2\<rparr>) = []"
  using wait_timeout_zero [of "world_of [] 1" no_repr "operation_with (status_json ''RUNNING'')" 3]
  by (simp add: world_of_def numeral_2_eq_2)

text \<open>
  C6, as the code has it. For an operation whose status is \<open>None\<close>, \<open>wait\<close> returns
  the operation unchanged if no timeout is set or the first deadline check passes, and
  raises \<open>Timeout\<close> if the first deadline check fails; in both cases it performs no
  poll and no sleep.
\<close>

theorem wait_status_none:
  assumes "status operation = JNull"
  shows "wait repr operation poll_interval_seconds timeout_seconds w =
       (case timeout_seconds of
          None \<Rightarrow> Some (Inr operation, w\<lparr>ticks := Suc (ticks w)\<rparr>)
        | Some t \<Rightarrow>
            Some (if clock w (Suc (ticks w)) - clock w (ticks w) < real_of_int t
                  then Inr operation else Inl (Timeout (Some t)),
                  w\<lparr>ticks := Suc (Suc (ticks w))\<rparr>))
     \<and> (\<forall>r w'. wait repr operation poll_interval_seconds timeout_seconds w = Some (r, w') \<longrightarrow>
           requests w' = requests w \<and> sleeps w' = sleeps w)"
proof -
  from assms have "resolved operation"
    by (simp add: resolved_def)
  then have "wait repr operation poll_interval_seconds timeout_seconds w =
       (case timeout_seconds of
          None \<Rightarrow> Some (Inr operation, w\<lparr>ticks := Suc (ticks w)\<rparr>)
        | Some t \<Rightarrow>
            Some (if clock w (Suc (ticks w)) - clock w (ticks w) < real_of_int t
                  then Inr operation else Inl (Timeout (Some t)),
                  w\<lparr>ticks := Suc (Suc (ticks w))\<rparr>))"
    by (rule wait_resolved)
  then show ?thesis
    by (cases timeout_seconds) auto
qed

theorem wait_status_none_witness:
  "wait no_repr (operation_with JNull) 3 None (world_of [] 1) =
     Some (Inr (operation_with JNull), (world_of [] 1)\<lparr>ticks := 1\<rparr>)
   \<and> wait no_repr (operation_with JNull) 3 (Some 5) (world_of [] 1) =
     Some (Inr (operation_with JNull), (world_of [] 1)\<lparr>ticks := 2\<rparr>)
   \<and> requests ((world_of [] 1)\<lparr>ticks := 2\<rparr>) = requests (world_of [] 1)
   \<and> sleeps ((world_of [] 1)\<lparr>ticks := 2\<rparr>) = sleeps (world_of [] 1)"
  using wait_status_none [of "operation_with JNull" no_repr 3 None "world_of [] 1"]
    wait_status_none [of "operation_with JNull" no_repr 3 "Some 5" "world_of [] 1"]
  by (simp add: operation_with_def world_of_def numeral_2_eq_2)

text \<open>
  The claim C6 says that the operation is returned for every operation whose status is
  \<open>None\<close>. With \<open>timeout_seconds = 0\<close> the loop body is never entered:
\<close>

theorem wait_status_none_counterexample:
  "wait no_repr (operation_with JNull) 3 (Some 0) (world_of [] 1) =
     Some (Inl (Timeout (Some 0)), (world_of [] 1)\<lparr>ticks := 2\<rparr>)"
  by (simp add: wait_resolved resolved_def operation_with_def world_of_def numeral_2_eq_2)

text \<open>
  C10, as the code has it. Called without a timeout, \<open>wait\<close> never raises \<open>Timeout\<close>.
  A call that returns gives an operation whose status is absent or terminal; a call
  that raises propagates the error of a poll, or raises an error of its own: the
  subscript \<open>status["state"]\<close> failed, or \<open>sleep\<close> was given a negative interval.
\<close>

theorem wait_without_timeout:
  assumes "wait repr operation poll_interval_seconds None w = Some (r, w')"
  shows "(\<forall>t. r \<noteq> Inl (Timeout t))
     \<and> ((\<exists>operation'. r = Inr operation' \<and> resolved operation')
        \<or> (\<exists>e. r = Inl e
              \<and> ((\<exists>operation0 w0. poll repr operation0 w0 = (Inl e, w'))
                 \<or> own_error poll_interval_seconds e)))"
proof -
  from assms have "wait_loop repr poll_interval_seconds None (clock w (ticks w)) operation
      (w\<lparr>ticks := Suc (ticks w)\<rparr>) = Some (r, w')"
    by (simp add: wait_unfold)
  from wait_loop_outcome [OF this] show ?thesis
    by auto
qed

theorem wait_without_timeout_witness:
  "wait no_repr (operation_with JNull) 3 None (world_of [] 1) =
     Some (Inr (operation_with JNull), (world_of [] 1)\<lparr>ticks := 1\<rparr>)
   \<and> resolved (operation_with JNull)"
proof -
  have run: "wait no_repr (operation_with JNull) 3 None (world_of [] 1) =
     Some (Inr (operation_with JNull), (world_of [] 1)\<lparr>ticks := 1\<rparr>)"
    by (simp add: wait_resolved resolved_def operation_with_def world_of_def)
  from wait_without_timeout [OF run] have "resolved (operation_with JNull)"
    by simp
  with run show ?thesis by simp
qed

text \<open>
  The claim C10 says that a call that raises propagates the error of a poll. Here the
  operation is \<open>PENDING\<close> and the poll returns, without an error, a snapshot whose
  status is the empty dictionary; the next iteration of \<open>wait\<close> raises the \<open>KeyError\<close>
  of its own subscript.
\<close>

theorem wait_without_timeout_counterexample:
  "wait no_repr (operation_with (status_json ''PENDING'')) 3 None
     (world_of [ok (operation_json (JObj []))] 1) =
   Some (Inl (KeyError ''state''),
         (world_of [ok (operation_json (JObj []))] 1)
           \<lparr>ticks := 1, sleeps := [3], requests := [GET (url_str no_repr operation_url) []]\<rparr>)
   \<and> poll no_repr (operation_with (status_json ''PENDING''))
        ((world_of [ok (operation_json (JObj []))] 1)\<lparr>ticks := 1, sleeps := [3]\<rparr>) =
      (Inr (operation_with (JObj [])),
       (world_of [ok (operation_json (JObj []))] 1)
         \<lparr>ticks := 1, sleeps := [3], requests := [GET (url_str no_repr operation_url) []]\<rparr>)"
proof -
  let ?v = "world_of [ok (operation_json (JObj []))] 1"
  let ?w0 = "?v\<lparr>ticks := Suc (ticks ?v)\<rparr>"
  let ?w1 = "?w0\<lparr>sleeps := sleeps ?w0 @ [3]\<rparr>"
  let ?w2 = "?w1\<lparr>requests := requests ?w1 @ [GET (url_str no_repr operation_url) []]\<rparr>"
  have b0: "wait_branch 3 (operation_with (status_json ''PENDING'')) ?w0 = (None, ?w1)"
    using wait_branch_pending [where s = "JStr ''PENDING''" and poll_interval_seconds = 3
        and operation = "operation_with (status_json ''PENDING'')" and w = ?w0]
    by (simp add: operation_with_def status_json_def)
  have p0: "poll no_repr (operation_with (status_json ''PENDING'')) ?w1 =
      (Inr (operation_with (JObj [])), ?w2)"
    using poll_answer [of ?w1 no_repr "operation_with (status_json ''PENDING'')"
        "ok (operation_json (JObj []))" "operation_json (JObj [])"]
    by (simp add: operation_with_def world_of_def scripted_def ok_def operation_json_def
        status_json_def dict_get_def)
  have b1: "wait_branch 3 (operation_with (JObj [])) ?w2 = (Some (Inl (KeyError ''state'')), ?w2)"
    by (rule wait_branch_lookup_error) (simp_all add: operation_with_def)
  have "wait no_repr (operation_with (status_json ''PENDING'')) 3 None ?v =
      wait_loop no_repr 3 None (clock ?v (ticks ?v)) (operation_with (status_json ''PENDING'')) ?w0"
    by (rule wait_unfold)
  also have "\<dots> = wait_loop no_repr 3 None (clock ?v (ticks ?v)) (operation_with (JObj [])) ?w2"
    by (subst wait_loop_step [OF deadline_check_None]) (simp add: b0 [simplified] p0 [simplified])
  also have "\<dots> = Some (Inl (KeyError ''state''), ?w2)"
    by (subst wait_loop_step [OF deadline_check_None]) (simp add: b1 [simplified])
  finally have "wait no_repr (operation_with (status_json ''PENDING'')) 3 None ?v =
      Some (Inl (KeyError ''state''), ?w2)" .
  with p0 show ?thesis
    by (simp add: world_of_def)
qed

section \<open>The copy made by deserialization\<close>

lemma deref_item:
  "subtree (cells st a) p = Some v \<Longrightarrow> deref st (item_ref a p v) = Some v"
  by (simp add: item_ref_def)

lemma getitem_st_Inr:
  assumes "getitem_st st a k = Inr r"
  obtains v where "getitem (cells st a) k = Inr v" "r = item_ref a [Key k] v"
  using assms by (auto simp: getitem_st_def split: sum.splits)

lemma subtree_key:
  "getitem j k = Inr v \<Longrightarrow> subtree j [Key k] = Some v"
  by (cases j) (auto split: option.splits)

lemma get_st_deref: "deref st (get_st st a k) = Some (case getitem (cells st a) k of Inl e \<Rightarrow> JNull | Inr v \<Rightarrow> v)"
  by (auto simp: get_st_def deref_item subtree_key split: sum.splits)

lemma tuple_st_deref:
  assumes "tuple_st st a k = Inr t"
  shows "\<exists>v xs. getitem (cells st a) k = Inr v \<and> py_tuple v = Inr xs \<and> map (deref st) t = map Some xs"
proof (cases "getitem (cells st a) k")
  case (Inl e)
  with assms show ?thesis by (simp add: tuple_st_def)
next
  case (Inr v)
  show ?thesis
  proof (cases v)
    case (JArr xs)
    have "subtree (cells st a) [Key k, Idx i] = Some (xs ! i)" if "i < length xs" for i
      using Inr JArr that by (cases "cells st a") (auto split: option.splits)
    then have "map (deref st) (map (\<lambda>i. item_ref a [Key k, Idx i] (xs ! i)) [0..<length xs]) = map Some xs"
      by (auto simp: deref_item intro!: nth_equalityI)
    with assms Inr JArr show ?thesis
      by (simp add: tuple_st_def)
  qed (use assms Inr in \<open>auto simp: tuple_st_def comp_def split: sum.splits\<close>)
qed

lemma cells_mutations:
  "\<forall>(a, j) \<in> set ms. a \<noteq> c \<Longrightarrow> cells (mutations ms st) c = cells st c"
  unfolding mutations_def
  by (induction ms arbitrary: st) (auto simp: mutate_def)

lemma deref_item_ref:
  "deref st (item_ref a p v) = (if is_mutable v then subtree (cells st a) p else Some v)"
  by (simp add: item_ref_def)

lemma get_st_cells:
  "cells st1 a = cells st2 a \<Longrightarrow> deref st1 (get_st st a k) = deref st2 (get_st st a k)"
  by (cases "getitem (cells st a) k") (simp_all add: get_st_def deref_item_ref)

lemma tuple_st_cells:
  assumes "tuple_st st a k = Inr t" and "cells st1 a = cells st2 a"
  shows "map (deref st1) t = map (deref st2) t"
proof (cases "getitem (cells st a) k")
  case (Inl e)
  with assms show ?thesis by (simp add: tuple_st_def)
next
  case (Inr v)
  with assms show ?thesis
    by (cases v) (auto simp: tuple_st_def deref_item_ref split: sum.splits)
qed

lemma dataset_from_json_st_Inr:
  assumes "dataset_from_json_st u data st = (Inr d, st')"
  obtains n t where
    "getitem_st st' (next_free st) ''name'' = Inr n"
    "tuple_st st' (next_free st) ''keyAttributeNames'' = Inr t"
    "d = \<lparr>st_url = u, st_name = n, st_key_attribute_names = t,
          st_description = get_st st' (next_free st) ''description''\<rparr>"
    "st' = st\<lparr>cells := (cells st)(next_free st := cells st data), next_free := Suc (next_free st)\<rparr>"
proof -
  let ?cp = "next_free st"
  let ?st1 = "st\<lparr>cells := (cells st)(?cp := cells st data), next_free := Suc ?cp\<rparr>"
  have eq: "dataset_from_json_st u data st =
      (case getitem_st ?st1 ?cp ''name'' of
         Inl e \<Rightarrow> (Inl e, ?st1)
       | Inr n \<Rightarrow>
           (case tuple_st ?st1 ?cp ''keyAttributeNames'' of
              Inl e \<Rightarrow> (Inl e, ?st1)
            | Inr t \<Rightarrow>
                (Inr \<lparr>st_url = u, st_name = n, st_key_attribute_names = t,
                      st_description = get_st ?st1 ?cp ''description''\<rparr>, ?st1)))"
    by (simp add: dataset_from_json_st_def deepcopy_def)
  show thesis
  proof (cases "getitem_st ?st1 ?cp ''name''")
    case (Inl e)
    with assms show ?thesis unfolding eq by simp
  next
    case n: (Inr n)
    show ?thesis
    proof (cases "tuple_st ?st1 ?cp ''keyAttributeNames''")
      case (Inl e)
      with assms n show ?thesis unfolding eq by simp
    next
      case t: (Inr t)
      have "fst (dataset_from_json_st u data st) =
          Inr \<lparr>st_url = u, st_name = n, st_key_attribute_names = t,
                st_description = get_st ?st1 ?cp ''description''\<rparr>"
        and "snd (dataset_from_json_st u data st) = ?st1"
        unfolding eq n t by simp_all
      with assms have st': "st' = ?st1"
        and "d = \<lparr>st_url = u, st_name = n, st_key_attribute_names = t,
                  st_description = get_st ?st1 ?cp ''description''\<rparr>"
        by simp_all
      then have d: "d = \<lparr>st_url = u, st_name = n, st_key_attribute_names = t,
                      st_description = get_st st' ?cp ''description''\<rparr>"
        by simp
      from n have "getitem_st st' ?cp ''name'' = Inr n"
        by (simp only: st')
      moreover from t have "tuple_st st' ?cp ''keyAttributeNames'' = Inr t"
        by (simp only: st')
      ultimately show ?thesis using d st' by (rule that)
    qed
  qed
qed

lemma operation_from_json_st_Inr:
  assumes "operation_from_json_st u data st = (Inr operation, st')"
  obtains t where
    "getitem_st st' (next_free st) ''type'' = Inr t"
    "operation = \<lparr>st_op_url = u, st_op_type = t, st_status = get_st st' (next_free st) ''status'',
          st_op_description = get_st st' (next_free st) ''description''\<rparr>"
    "st' = st\<lparr>cells := (cells st)(next_free st := cells st data), next_free := Suc (next_free st)\<rparr>"
proof -
  let ?cp = "next_free st"
  let ?st1 = "st\<lparr>cells := (cells st)(?cp := cells st data), next_free := Suc ?cp\<rparr>"
  have eq: "operation_from_json_st u data st =
      (case getitem_st ?st1 ?cp ''type'' of
         Inl e \<Rightarrow> (Inl e, ?st1)
       | Inr t \<Rightarrow>
           (Inr \<lparr>st_op_url = u, st_op_type = t, st_status = get_st ?st1 ?cp ''status'',
                 st_op_description = get_st ?st1 ?cp ''description''\<rparr>, ?st1))"
    by (simp add: operation_from_json_st_def deepcopy_def)
  show thesis
  proof (cases "getitem_st ?st1 ?cp ''type''")
    case (Inl e)
    with assms show ?thesis unfolding eq by simp
  next
    case t: (Inr t)
    have "fst (operation_from_json_st u data st) =
          Inr \<lparr>st_op_url = u, st_op_type = t, st_status = get_st ?st1 ?cp ''status'',
                st_op_description = get_st ?st1 ?cp ''description''\<rparr>"
      and "snd (operation_from_json_st u data st) = ?st1"
      unfolding eq t by simp_all
    with assms have st': "st' = ?st1"
      and "operation = \<lparr>st_op_url = u, st_op_type = t, st_status = get_st ?st1 ?cp ''status'',
                st_op_description = get_st ?st1 ?cp ''description''\<rparr>"
      by simp_all
    then have d: "operation = \<lparr>st_op_url = u, st_op_type = t, st_status = get_st st' ?cp ''status'',
                st_op_description = get_st st' ?cp ''description''\<rparr>"
      by simp
    from t have "getitem_st st' ?cp ''type'' = Inr t"
      by (simp only: st')
    then show ?thesis using d st' by (rule that)
  qed
qed

lemma dataset_from_json_st_frame:
  assumes run: "dataset_from_json_st u data st = (Inr d, st')"
    and same: "cells st1 (next_free st) = cells st' (next_free st)"
  shows "view_dataset st1 d = view_dataset st' d"
proof -
  from run obtain n t where
    n: "getitem_st st' (next_free st) ''name'' = Inr n" and
    t: "tuple_st st' (next_free st) ''keyAttributeNames'' = Inr t" and
    d: "d = \<lparr>st_url = u, st_name = n, st_key_attribute_names = t,
             st_description = get_st st' (next_free st) ''description''\<rparr>"
    by (rule dataset_from_json_st_Inr)
  from n obtain v where "n = item_ref (next_free st) [Key ''name''] v"
    by (rule getitem_st_Inr)
  with same have "deref st1 n = deref st' n"
    by (simp add: deref_item_ref)
  moreover from t same have "map (deref st1) t = map (deref st') t"
    by (rule tuple_st_cells)
  moreover from same
  have "deref st1 (get_st st' (next_free st) ''description'') =
      deref st' (get_st st' (next_free st) ''description'')"
    by (rule get_st_cells)
  ultimately show ?thesis
    by (simp add: view_dataset_def d)
qed

lemma operation_from_json_st_frame:
  assumes run: "operation_from_json_st u data st = (Inr operation, st')"
    and same: "cells st1 (next_free st) = cells st' (next_free st)"
  shows "view_operation st1 operation = view_operation st' operation"
proof -
  from run obtain t where
    t: "getitem_st st' (next_free st) ''type'' = Inr t" and
    d: "operation = \<lparr>st_op_url = u, st_op_type = t, st_status = get_st st' (next_free st) ''status'',
          st_op_description = get_st st' (next_free st) ''description''\<rparr>"
    by (rule operation_from_json_st_Inr)
  from t obtain v where "t = item_ref (next_free st) [Key ''type''] v"
    by (rule getitem_st_Inr)
  with same have "deref st1 t = deref st' t"
    by (simp add: deref_item_ref)
  moreover from same have "deref st1 (get_st st' (next_free st) k) = deref st' (get_st st' (next_free st) k)" for k
    by (rule get_st_cells)
  ultimately show ?thesis
    by (simp add: view_operation_def d)
qed

lemma dataset_from_json_st_view:
  assumes run: "dataset_from_json_st u data st = (Inr d, st')"
  shows "\<exists>d0. dataset_from_json u (cells st data) = Inr d0 \<and> view_dataset st' d = dataset_fields d0"
proof -
  let ?cp = "next_free st"
  from run obtain n t where
    n: "getitem_st st' ?cp ''name'' = Inr n" and
    t: "tuple_st st' ?cp ''keyAttributeNames'' = Inr t" and
    d: "d = \<lparr>st_url = u, st_name = n, st_key_attribute_names = t,
             st_description = get_st st' ?cp ''description''\<rparr>" and
    st': "st' = st\<lparr>cells := (cells st)(?cp := cells st data), next_free := Suc ?cp\<rparr>"
    by (rule dataset_from_json_st_Inr)
  have cp: "cells st' ?cp = cells st data"
    by (simp add: st')
  from n obtain v where v: "getitem (cells st data) ''name'' = Inr v" "n = item_ref ?cp [Key ''name''] v"
    by (rule getitem_st_Inr) (simp add: cp)
  from v(1) obtain kvs where kvs: "cells st data = JObj kvs"
    by (cases "cells st data") auto
  from tuple_st_deref [OF t] obtain ks xs where
    ks: "getitem (cells st data) ''keyAttributeNames'' = Inr ks" "py_tuple ks = Inr xs"
      "map (deref st') t = map Some xs"
    by (auto simp: cp)
  have "deref st' n = Some v"
    unfolding v(2) by (rule deref_item) (simp add: cp subtree_key [OF v(1)])
  moreover have "deref st' (get_st st' ?cp ''description'') = Some (dict_get kvs ''description'')"
    by (simp add: get_st_deref cp kvs dict_get_def split: option.splits)
  ultimately have "view_dataset st' d =
      dataset_fields \<lparr>url = u, name = v, key_attribute_names = xs,
                      description = dict_get kvs ''description''\<rparr>"
    using ks(3) by (simp add: view_dataset_def dataset_fields_def d)
  moreover have "dataset_from_json u (cells st data) =
      Inr \<lparr>url = u, name = v, key_attribute_names = xs, description = dict_get kvs ''description''\<rparr>"
    using v(1) ks(1,2) by (simp add: kvs)
  ultimately show ?thesis by blast
qed

lemma operation_from_json_st_view:
  assumes run: "operation_from_json_st u data st = (Inr operation, st')"
  shows "\<exists>operation0. operation_from_json u (cells st data) = Inr operation0
     \<and> view_operation st' operation = operation_fields operation0"
proof -
  let ?cp = "next_free st"
  from run obtain t where
    t: "getitem_st st' ?cp ''type'' = Inr t" and
    d: "operation = \<lparr>st_op_url = u, st_op_type = t, st_status = get_st st' ?cp ''status'',
          st_op_description = get_st st' ?cp ''description''\<rparr>" and
    st': "st' = st\<lparr>cells := (cells st)(?cp := cells st data), next_free := Suc ?cp\<rparr>"
    by (rule operation_from_json_st_Inr)
  have cp: "cells st' ?cp = cells st data"
    by (simp add: st')
  from t obtain v where v: "getitem (cells st data) ''type'' = Inr v" "t = item_ref ?cp [Key ''type''] v"
    by (rule getitem_st_Inr) (simp add: cp)
  from v(1) obtain kvs where kvs: "cells st data = JObj kvs"
    by (cases "cells st data") auto
  have "deref st' t = Some v"
    unfolding v(2) by (rule deref_item) (simp add: cp subtree_key [OF v(1)])
  moreover have "deref st' (get_st st' ?cp k) = Some (dict_get kvs k)" for k
    by (simp add: get_st_deref cp kvs dict_get_def split: option.splits)
  ultimately have "view_operation st' operation =
      operation_fields \<lparr>op_url = u, op_type = v, status = dict_get kvs ''status'',
                        op_description = dict_get kvs ''description''\<rparr>"
    by (simp add: view_operation_def operation_fields_def d)
  moreover have "operation_from_json u (cells st data) =
      Inr \<lparr>op_url = u, op_type = v, status = dict_get kvs ''status'',
           op_description = dict_get kvs ''description''\<rparr>"
    using v(1) by (simp add: kvs)
  ultimately show ?thesis by blast
qed

text \<open>
  C9. \<open>_from_json\<close> builds the entity from a deep copy of its argument, a new object
  of the store. Whatever is done afterwards to the objects that existed when it was
  called, the dictionary passed in among them, every field of the entity reads as
  before, and reads as the value it had in the argument at the time of the call. This
  holds for datasets and for operations.
\<close>

theorem from_json_defensive_copy:
  assumes "\<forall>(a, j) \<in> set ms. a < next_free st"
  shows "(\<forall>d st'. dataset_from_json_st u data st = (Inr d, st') \<longrightarrow>
            view_dataset (mutations ms st') d = view_dataset st' d
            \<and> (\<exists>d0. dataset_from_json u (cells st data) = Inr d0
                   \<and> view_dataset (mutations ms st') d = dataset_fields d0))
     \<and> (\<forall>operation st'. operation_from_json_st u data st = (Inr operation, st') \<longrightarrow>
            view_operation (mutations ms st') operation = view_operation st' operation
            \<and> (\<exists>operation0. operation_from_json u (cells st data) = Inr operation0
                   \<and> view_operation (mutations ms st') operation = operation_fields operation0))"
proof -
  from assms have "\<forall>(a, j) \<in> set ms. a \<noteq> next_free st"
    by auto
  then have same: "cells (mutations ms st') (next_free st) = cells st' (next_free st)" for st'
    by (rule cells_mutations)
  show ?thesis
  proof (intro conjI allI impI)
    fix d st'
    assume run: "dataset_from_json_st u data st = (Inr d, st')"
    from run same show frame: "view_dataset (mutations ms st') d = view_dataset st' d"
      by (rule dataset_from_json_st_frame)
    from dataset_from_json_st_view [OF run] frame
    show "\<exists>d0. dataset_from_json u (cells st data) = Inr d0
        \<and> view_dataset (mutations ms st') d = dataset_fields d0"
      by simp
  next
    fix operation st'
    assume run: "operation_from_json_st u data st = (Inr operation, st')"
    from run same show frame: "view_operation (mutations ms st') operation = view_operation st' operation"
      by (rule operation_from_json_st_frame)
    from operation_from_json_st_view [OF run] frame
    show "\<exists>operation0. operation_from_json u (cells st data) = Inr operation0
        \<and> view_operation (mutations ms st') operation = operation_fields operation0"
      by simp
  qed
qed

lemma operation_from_json_st_example:
  "operation_from_json_st operation_url 0 (store_of (operation_json (status_json ''RUNNING''))) =
     (Inr \<lparr>st_op_url = operation_url, st_op_type = Val (JStr ''SPARK''),
           st_status = Ref 1 [Key ''status''], st_op_description = Val JNull\<rparr>,
      \<lparr>cells = (cells (store_of (operation_json (status_json ''RUNNING''))))
                 (1 := operation_json (status_json ''RUNNING'')),
        next_free = 2\<rparr>)"
  by (simp add: operation_from_json_st_def deepcopy_def store_of_def operation_json_def
      status_json_def getitem_st_def get_st_def item_ref_def numeral_2_eq_2)

theorem from_json_defensive_copy_witness:
  "view_operation
     (mutations [(0, operation_json (status_json ''SUCCEEDED''))]
        \<lparr>cells = (cells (store_of (operation_json (status_json ''RUNNING''))))
                   (1 := operation_json (status_json ''RUNNING'')),
          next_free = 2\<rparr>)
     \<lparr>st_op_url = operation_url, st_op_type = Val (JStr ''SPARK''),
       st_status = Ref 1 [Key ''status''], st_op_description = Val JNull\<rparr> =
   (operation_url, Some (JStr ''SPARK''), Some (status_json ''RUNNING''), Some JNull)"
proof -
  have existing: "\<forall>(a, j) \<in> set [(0, operation_json (status_json ''SUCCEEDED''))].
      a < next_free (store_of (operation_json (status_json ''RUNNING'')))"
    by (simp add: store_of_def)
  note from_json_defensive_copy [OF existing, of operation_url 0, THEN conjunct2, rule_format,
      OF operation_from_json_st_example, THEN conjunct1]
  also have "view_operation
     \<lparr>cells = (cells (store_of (operation_json (status_json ''RUNNING''))))
                (1 := operation_json (status_json ''RUNNING'')),
       next_free = 2\<rparr>
     \<lparr>st_op_url = operation_url, st_op_type = Val (JStr ''SPARK''),
       st_status = Ref 1 [Key ''status''], st_op_description = Val JNull\<rparr> =
     (operation_url, Some (JStr ''SPARK''), Some (status_json ''RUNNING''), Some JNull)"
    by (simp add: view_operation_def operation_json_def status_json_def)
  finally show ?thesis .
qed

section \<open>Fetching and deserializing entities\<close>

lemma by_url_answer:
  assumes "server w (length (requests w)) (GET (url_str repr u) []) = Some r"
    and "200 \<le> status_code r" and "status_code r < 300" and "body r = Some j"
  shows "by_url repr u w = (dataset_from_json u j, w\<lparr>requests := requests w @ [GET (url_str repr u) []]\<rparr>)"
  using assms
  by (simp add: by_url_def session_get_def successful_def resp_json_def)

lemma operation_from_url_answer:
  assumes "server w (length (requests w)) (GET (url_str repr u) []) = Some r"
    and "200 \<le> status_code r" and "status_code r < 300" and "body r = Some j"
  shows "operation_from_url repr u w =
     (operation_from_json u j, w\<lparr>requests := requests w @ [GET (url_str repr u) []]\<rparr>)"
  using assms
  by (simp add: operation_from_url_def session_get_def successful_def resp_json_def)

lemma by_name_answer:
  assumes "server w (length (requests w))
             (GET (url_str repr \<lparr>url_instance = inst, path = JStr ''datasets''\<rparr>)
                  [(''filter'', ''name=='' @ nm)]) = Some r"
    and "body r = Some (JArr matches)"
  shows "by_name repr inst nm w =
     ((case matches of
         [] \<Rightarrow> Inl (DatasetNotFound (resp_url r))
       | [m] \<Rightarrow> (case getitem m ''relativeId'' of
                   Inl e \<Rightarrow> Inl e
                 | Inr rid \<Rightarrow> dataset_from_json \<lparr>url_instance = inst, path = rid\<rparr> m)
       | _ \<Rightarrow> Inl (Ambiguous (resp_url r))),
      w\<lparr>requests := requests w @
          [GET (url_str repr \<lparr>url_instance = inst, path = JStr ''datasets''\<rparr>)
               [(''filter'', ''name=='' @ nm)]]\<rparr>)"
  using assms
  by (cases matches; cases "tl matches")
     (auto simp: by_name_def session_get_def resp_json_def split: sum.splits)

text \<open>
  C8. For a JSON object, dataset deserialization raises a \<open>KeyError\<close> exactly when
  \<open>"name"\<close> or \<open>"keyAttributeNames"\<close> is absent (the first absent one is reported),
  and operation deserialization fails exactly when \<open>"type"\<close> is absent, with a
  \<open>KeyError\<close>. An absent \<open>"description"\<close> or \<open>"status"\<close> does not fail and gives
  \<open>None\<close>. The fetch-by-URL functions return what deserialization returns, its error
  included: the error is propagated, not caught.
\<close>

theorem from_json_required_fields:
  "((\<exists>k. dataset_from_json u (JObj cp) = Inl (KeyError k))
      \<longleftrightarrow> (map_of cp ''name'' = None \<or> map_of cp ''keyAttributeNames'' = None))
   \<and> (map_of cp ''name'' = None \<longrightarrow> dataset_from_json u (JObj cp) = Inl (KeyError ''name''))
   \<and> (\<forall>n. map_of cp ''name'' = Some n \<longrightarrow> map_of cp ''keyAttributeNames'' = None \<longrightarrow>
          dataset_from_json u (JObj cp) = Inl (KeyError ''keyAttributeNames''))
   \<and> (\<forall>n ks. map_of cp ''name'' = Some n \<longrightarrow> map_of cp ''keyAttributeNames'' = Some (JArr ks) \<longrightarrow>
          dataset_from_json u (JObj cp) =
            Inr \<lparr>url = u, name = n, key_attribute_names = ks,
                 description = dict_get cp ''description''\<rparr>)
   \<and> (\<forall>d. dataset_from_json u (JObj cp) = Inr d \<longrightarrow> map_of cp ''description'' = None \<longrightarrow>
          description d = JNull)
   \<and> ((\<exists>e. operation_from_json u (JObj cp) = Inl e) \<longleftrightarrow> map_of cp ''type'' = None)
   \<and> (map_of cp ''type'' = None \<longrightarrow> operation_from_json u (JObj cp) = Inl (KeyError ''type''))
   \<and> (\<forall>operation. operation_from_json u (JObj cp) = Inr operation \<longrightarrow>
          (map_of cp ''status'' = None \<longrightarrow> status operation = JNull)
          \<and> (map_of cp ''description'' = None \<longrightarrow> op_description operation = JNull))
   \<and> (\<forall>repr w r. server w (length (requests w)) (GET (url_str repr u) []) = Some r
          \<and> 200 \<le> status_code r \<and> status_code r < 300 \<and> body r = Some (JObj cp) \<longrightarrow>
          fst (by_url repr u w) = dataset_from_json u (JObj cp)
          \<and> fst (operation_from_url repr u w) = operation_from_json u (JObj cp))"
proof (intro conjI)
  show "(\<exists>k. dataset_from_json u (JObj cp) = Inl (KeyError k))
      \<longleftrightarrow> (map_of cp ''name'' = None \<or> map_of cp ''keyAttributeNames'' = None)"
    by (rule dataset_from_json_KeyError)
  show "map_of cp ''name'' = None \<longrightarrow> dataset_from_json u (JObj cp) = Inl (KeyError ''name'')"
    by simp
  show "\<forall>n. map_of cp ''name'' = Some n \<longrightarrow> map_of cp ''keyAttributeNames'' = None \<longrightarrow>
          dataset_from_json u (JObj cp) = Inl (KeyError ''keyAttributeNames'')"
    by simp
  show "\<forall>n ks. map_of cp ''name'' = Some n \<longrightarrow> map_of cp ''keyAttributeNames'' = Some (JArr ks) \<longrightarrow>
          dataset_from_json u (JObj cp) =
            Inr \<lparr>url = u, name = n, key_attribute_names = ks,
                 description = dict_get cp ''description''\<rparr>"
    by simp
  show "\<forall>d. dataset_from_json u (JObj cp) = Inr d \<longrightarrow> map_of cp ''description'' = None \<longrightarrow>
          description d = JNull"
  proof (intro allI impI)
    fix d
    assume "dataset_from_json u (JObj cp) = Inr d" and absent: "map_of cp ''description'' = None"
    from dataset_from_json_fields [OF this(1)] have "description d = dict_get cp ''description''"
      by auto
    with absent show "description d = JNull"
      by (simp add: dict_get_def)
  qed
  show "(\<exists>e. operation_from_json u (JObj cp) = Inl e) \<longleftrightarrow> map_of cp ''type'' = None"
    by (simp add: operation_from_json_obj split: option.splits)
  show "map_of cp ''type'' = None \<longrightarrow> operation_from_json u (JObj cp) = Inl (KeyError ''type'')"
    by simp
  show "\<forall>operation. operation_from_json u (JObj cp) = Inr operation \<longrightarrow>
          (map_of cp ''status'' = None \<longrightarrow> status operation = JNull)
          \<and> (map_of cp ''description'' = None \<longrightarrow> op_description operation = JNull)"
    by (auto simp: operation_from_json_obj dict_get_def split: option.splits)
  show "\<forall>repr w r. server w (length (requests w)) (GET (url_str repr u) []) = Some r
          \<and> 200 \<le> status_code r \<and> status_code r < 300 \<and> body r = Some (JObj cp) \<longrightarrow>
          fst (by_url repr u w) = dataset_from_json u (JObj cp)
          \<and> fst (operation_from_url repr u w) = operation_from_json u (JObj cp)"
    by (simp add: by_url_answer operation_from_url_answer del: dataset_from_json.simps operation_from_json.simps)
qed

theorem from_json_required_fields_witness:
  "dataset_from_json operation_url (JObj [(''name'', JStr ''people'')]) = Inl (KeyError ''keyAttributeNames'')
   \<and> operation_from_json operation_url (JObj [(''id'', JStr ''1'')]) = Inl (KeyError ''type'')
   \<and> dataset_from_json operation_url
        (JObj [(''name'', JStr ''people''), (''keyAttributeNames'', JArr [JStr ''id''])]) =
      Inr \<lparr>url = operation_url, name = JStr ''people'', key_attribute_names = [JStr ''id''],
           description = JNull\<rparr>"
  using from_json_required_fields [of operation_url "[(''name'', JStr ''people'')]"]
    from_json_required_fields [of operation_url "[(''id'', JStr ''1'')]"]
    from_json_required_fields
      [of operation_url "[(''name'', JStr ''people''), (''keyAttributeNames'', JArr [JStr ''id''])]"]
  by (simp add: dict_get_def)

text \<open>
  C7. The name-filtered request of \<open>by_name\<close> is answered with a JSON array. With no
  record \<open>by_name\<close> raises \<open>NotFound\<close>, with two or more \<open>Ambiguous\<close>; with exactly one
  record that has \<open>relativeId\<close>, \<open>name\<close> and a list of \<open>keyAttributeNames\<close> it returns
  a dataset whose URL has the record's \<open>relativeId\<close> as its path (the request went to
  the path \<open>datasets\<close>).
\<close>

theorem by_name_cases:
  assumes "server w (length (requests w))
             (GET (url_str repr \<lparr>url_instance = inst, path = JStr ''datasets''\<rparr>)
                  [(''filter'', ''name=='' @ nm)]) = Some r"
    and "body r = Some (JArr matches)"
  shows "(length matches = 0 \<longrightarrow> fst (by_name repr inst nm w) = Inl (DatasetNotFound (resp_url r)))
     \<and> (2 \<le> length matches \<longrightarrow> fst (by_name repr inst nm w) = Inl (Ambiguous (resp_url r)))
     \<and> (\<forall>cp rid n ks.
           matches = [JObj cp] \<and> map_of cp ''relativeId'' = Some rid \<and> map_of cp ''name'' = Some n
             \<and> map_of cp ''keyAttributeNames'' = Some (JArr ks) \<longrightarrow>
           (\<exists>d. fst (by_name repr inst nm w) = Inr d
              \<and> path (url d) = rid \<and> url_instance (url d) = inst
              \<and> name d = n \<and> key_attribute_names d = ks))"
proof (intro conjI allI impI)
  assume "length matches = 0"
  then show "fst (by_name repr inst nm w) = Inl (DatasetNotFound (resp_url r))"
    by (simp add: by_name_answer [OF assms])
next
  assume "2 \<le> length matches"
  then obtain a b ms where "matches = a # b # ms"
    by (cases matches; cases "tl matches") auto
  then show "fst (by_name repr inst nm w) = Inl (Ambiguous (resp_url r))"
    by (simp add: by_name_answer [OF assms])
next
  fix cp rid n ks
  assume "matches = [JObj cp] \<and> map_of cp ''relativeId'' = Some rid \<and> map_of cp ''name'' = Some n
             \<and> map_of cp ''keyAttributeNames'' = Some (JArr ks)"
  then show "\<exists>d. fst (by_name repr inst nm w) = Inr d
              \<and> path (url d) = rid \<and> url_instance (url d) = inst
              \<and> name d = n \<and> key_attribute_names d = ks"
    by (simp add: by_name_answer [OF assms])
qed

theorem by_name_cases_witness:
  "(\<exists>d. fst (by_name no_repr local_instance ''people'' (world_of [ok (JArr [dataset_json])] 1)) = Inr d
      \<and> path (url d) = JStr ''datasets/7'' \<and> url_instance (url d) = local_instance
      \<and> name d = JStr ''people'' \<and> key_attribute_names d = [JStr ''id'', JStr ''source''])
   \<and> fst (by_name no_repr local_instance ''people'' (world_of [ok (JArr [])] 1)) =
       Inl (DatasetNotFound ''http://localhost:9100/api'')
   \<and> fst (by_name no_repr local_instance ''people''
          (world_of [ok (JArr [dataset_json, dataset_json])] 1)) =
       Inl (Ambiguous ''http://localhost:9100/api'')"
  using by_name_cases [of "world_of [ok (JArr [dataset_json])] 1" no_repr local_instance "''people''"
      "ok (JArr [dataset_json])" "[dataset_json]"]
    by_name_cases [of "world_of [ok (JArr [])] 1" no_repr local_instance "''people''"
      "ok (JArr [])" "[]"]
    by_name_cases [of "world_of [ok (JArr [dataset_json, dataset_json])] 1" no_repr local_instance
      "''people''" "ok (JArr [dataset_json, dataset_json])" "[dataset_json, dataset_json]"]
  by (simp add: world_of_def scripted_def ok_def dataset_json_def)

end
